theory Spec2Isabelle
  imports Main "HOL-Library.Sublist" "HOL-Library.Word"
begin

section \<open>JavaScript values and strings\<close>

text \<open>
  The intake of a project arrives as parsed JSON (\<open>Record<string, any>\<close>), so a field can
  hold any JSON value; a key that is absent reads as \<open>undefined\<close>. An object is the plain
  object that \<open>JSON.parse\<close> builds: its own keys with their values, in the order of the
  text. Numbers are the integers of magnitude below \<open>2^53\<close>, which print in plain digits
  (fractions, larger numbers and the exponent form are left out); strings are lists of code
  units below 256.
\<close>

datatype jsval =
    JUndefined
  | JNull
  | JBool bool
  | JNum int
  | JStr string
  | JArr "jsval list"
  | JObj "(string \<times> jsval) list"

text \<open>
  A run-time failure of the code is a value: a \<open>TypeError\<close> (an object that cannot be
  converted to a primitive value, a method call on a value that has no such method, a
  header value that is not allowed, or a failed \<open>fetch\<close>), a \<open>SyntaxError\<close> (a response
  body that is not JSON), or the \<open>ApiError\<close> of api.ts with its message, status and body.
\<close>

datatype js_error = TypeError | SyntaxError | ApiError string nat jsval

text \<open>Truthiness, as \<open>!x\<close>, \<open>x || y\<close> and \<open>filter(Boolean)\<close> read a value.\<close>

fun truthy :: "jsval \<Rightarrow> bool" where
  "truthy JUndefined = False"
| "truthy JNull = False"
| "truthy (JBool b) = b"
| "truthy (JNum n) = (n \<noteq> 0)"
| "truthy (JStr s) = (s \<noteq> [])"
| "truthy (JArr xs) = True"
| "truthy (JObj kvs) = True"

text \<open>The operator \<open>a || b\<close>.\<close>

definition js_or :: "jsval \<Rightarrow> jsval \<Rightarrow> jsval" where
  "js_or a b = (if truthy a then a else b)"

definition digit_char :: "nat \<Rightarrow> char" where
  "digit_char d = char_of (48 + d)"

function string_of_nat :: "nat \<Rightarrow> string" where
  "string_of_nat n =
     (if n < 10 then [digit_char n] else string_of_nat (n div 10) @ [digit_char (n mod 10)])"
  by pat_completeness auto
termination
  by (relation "measure id") auto

definition string_of_int :: "int \<Rightarrow> string" where
  "string_of_int n = (if n < 0 then CHR ''-'' # string_of_nat (nat (- n)) else string_of_nat (nat n))"

fun join_with :: "string \<Rightarrow> string list \<Rightarrow> string" where
  "join_with sep [] = []"
| "join_with sep [s] = s"
| "join_with sep (s # t # ss) = s @ sep @ join_with sep (t # ss)"

text \<open>Running a list of steps in order: the first failure ends the run.\<close>

fun sequence_err :: "('e + 'a) list \<Rightarrow> 'e + 'a list" where
  "sequence_err [] = Inr []"
| "sequence_err (r # rs) =
     (case r of
        Inl e \<Rightarrow> Inl e
      | Inr v \<Rightarrow> (case sequence_err rs of Inl e \<Rightarrow> Inl e | Inr vs \<Rightarrow> Inr (v # vs)))"

text \<open>
  The conversion \<open>String(x)\<close>. An array prints its elements joined by commas, with
  \<open>null\<close> and \<open>undefined\<close> elements printed as the empty string and every other element
  converted in turn. A plain object is converted by its \<open>toString\<close>: the inherited one
  prints \<open>[object Object]\<close>, but an own key \<open>toString\<close> hides it, and since a JSON value
  cannot be called (and the inherited \<open>valueOf\<close> gives back the object) the conversion
  then throws a \<open>TypeError\<close>.
\<close>

fun String_js :: "jsval \<Rightarrow> js_error + string" where
  "String_js JUndefined = Inr ''undefined''"
| "String_js JNull = Inr ''null''"
| "String_js (JBool b) = Inr (if b then ''true'' else ''false'')"
| "String_js (JNum n) = Inr (string_of_int n)"
| "String_js (JStr s) = Inr s"
| "String_js (JArr xs) =
     (case sequence_err
             (map (\<lambda>x. if x = JNull \<or> x = JUndefined then Inr [] else String_js x) xs) of
        Inl e \<Rightarrow> Inl e
      | Inr ss \<Rightarrow> Inr (join_with '','' ss))"
| "String_js (JObj kvs) =
     (if ''toString'' \<in> set (map fst kvs) then Inl TypeError else Inr ''[object Object]'')"

text \<open>
  The code units that \<open>trim()\<close> removes (white space and line terminators), among those
  below 256: tab, line feed, vertical tab, form feed, carriage return, space, no-break space.
\<close>

definition js_whitespace :: "char \<Rightarrow> bool" where
  "js_whitespace c =
     (c \<in> set [CHR 0x09, CHR 0x0A, CHR 0x0B, CHR 0x0C, CHR 0x0D, CHR 0x20, CHR 0xA0])"

definition trim :: "string \<Rightarrow> string" where
  "trim s = rev (dropWhile js_whitespace (rev (dropWhile js_whitespace s)))"

section \<open>The intake model (MainPage.tsx)\<close>

type_synonym intake = "string \<rightharpoonup> jsval"

text \<open>Reading a property of a plain object: an absent key gives \<open>undefined\<close>.\<close>

definition get_prop :: "intake \<Rightarrow> string \<Rightarrow> jsval" where
  "get_prop i k = (case i k of None \<Rightarrow> JUndefined | Some v \<Rightarrow> v)"

definition isArray :: "jsval \<Rightarrow> bool" where
  "isArray v = (case v of JArr xs \<Rightarrow> True | _ \<Rightarrow> False)"

text \<open>
  \<open>xs.filter(p)\<close> with a callback that may throw: the callback is called on the elements
  in order, and its first failure ends the call.
\<close>

fun filter_err :: "('a \<Rightarrow> 'e + bool) \<Rightarrow> 'a list \<Rightarrow> 'e + 'a list" where
  "filter_err p [] = Inr []"
| "filter_err p (x # xs) =
     (case p x of
        Inl e \<Rightarrow> Inl e
      | Inr b \<Rightarrow>
          (case filter_err p xs of
             Inl e \<Rightarrow> Inl e
           | Inr ys \<Rightarrow> Inr (if b then x # ys else ys)))"

text \<open>\<open>v.filter(p)\<close> on any value: a value that is not an array has no such method.\<close>

definition array_filter :: "(jsval \<Rightarrow> js_error + bool) \<Rightarrow> jsval \<Rightarrow> js_error + jsval list" where
  "array_filter p v = (case v of JArr xs \<Rightarrow> filter_err p xs | _ \<Rightarrow> Inl TypeError)"

text \<open>
  The two tests that \<open>computeMissingFromIntake\<close> writes out: \<open>!String(v).trim()\<close>, and
  the callback \<open>(x) => String(x).trim()\<close> read as a truth value.
\<close>

definition String_trim_empty :: "jsval \<Rightarrow> js_error + bool" where
  "String_trim_empty v = (case String_js v of Inl e \<Rightarrow> Inl e | Inr s \<Rightarrow> Inr (trim s = []))"

definition String_trim_truthy :: "jsval \<Rightarrow> js_error + bool" where
  "String_trim_truthy x = (case String_js x of Inl e \<Rightarrow> Inl e | Inr s \<Rightarrow> Inr (trim s \<noteq> []))"

text \<open>\<open>intake || {}\<close>, where \<open>None\<close> is the \<open>undefined\<close> intake.\<close>

definition intake_or_empty :: "intake option \<Rightarrow> intake" where
  "intake_or_empty intake = (case intake of None \<Rightarrow> Map.empty | Some m \<Rightarrow> m)"

text \<open>
  \<open>computeMissingFromIntake\<close>:
  each \<open>missing.push\<close> appends to the list built so far, and the statements run in the
  order of the source, so that a conversion that throws ends the call. In the test of
  \<open>proposed_seats\<close> the operator \<open>||\<close> evaluates \<open>ps.filter(...)\<close> only when
  \<open>Array.isArray(ps)\<close> holds.
\<close>

definition computeMissingFromIntake :: "intake option \<Rightarrow> js_error + string list" where
  "computeMissingFromIntake intake =
     (let i = intake_or_empty intake;
          missing0 = []
      in case String_trim_empty (js_or (get_prop i ''current_seat'') (JStr [])) of
           Inl e \<Rightarrow> Inl e
         | Inr no_current \<Rightarrow>
     (let missing1 = (if no_current then missing0 @ [''current_seat''] else missing0);
          ps = get_prop i ''proposed_seats''
      in case (if \<not> isArray ps then Inr True
               else (case array_filter String_trim_truthy ps of
                       Inl e \<Rightarrow> Inl e
                     | Inr kept \<Rightarrow> Inr (length kept = 0))) of
           Inl e \<Rightarrow> Inl e
         | Inr no_seat \<Rightarrow>
     (let missing2 = (if no_seat then missing1 @ [''proposed_seats''] else missing1)
      in case String_trim_empty (js_or (get_prop i ''arbitration_agreement_text'') (JStr [])) of
           Inl e \<Rightarrow> Inl e
         | Inr no_text \<Rightarrow>
     (let missing3 = (if no_text then missing2 @ [''arbitration_agreement_text''] else missing2)
      in case String_trim_empty (js_or (get_prop i ''institution_rules'') (JStr [])) of
           Inl e \<Rightarrow> Inl e
         | Inr no_rules \<Rightarrow>
     (let missing4 = (if no_rules then missing3 @ [''institution_rules''] else missing3)
      in case String_trim_empty (js_or (get_prop i ''governing_law'') (JStr [])) of
           Inl e \<Rightarrow> Inl e
         | Inr no_law \<Rightarrow>
     (let missing5 = (if no_law then missing4 @ [''governing_law''] else missing4)
      in Inr missing5))))))"

text \<open>
  \<open>parseProposedSeats\<close>: \<open>raw.split(/[,;\n]/g)\<close> cuts at every comma, semicolon and line
  feed and keeps the empty pieces; then each piece is trimmed and the empty ones dropped.
\<close>

definition is_separator :: "char \<Rightarrow> bool" where
  "is_separator c = (c = CHR '','' \<or> c = CHR '';'' \<or> c = CHR 0x0A)"

fun split_at :: "(char \<Rightarrow> bool) \<Rightarrow> string \<Rightarrow> string list" where
  "split_at p [] = [[]]"
| "split_at p (c # cs) =
     (if p c then [] # split_at p cs
      else (case split_at p cs of
              [] \<Rightarrow> [[c]]
            | s # ss \<Rightarrow> (c # s) # ss))"

definition parseProposedSeats :: "string \<Rightarrow> string list" where
  "parseProposedSeats raw = filter (\<lambda>s. s \<noteq> []) (map trim (split_at is_separator raw))"

subsection \<open>The segments of a separated list\<close>

text \<open>
  Putting pieces back together with the separators that were cut out between them, in
  order.
\<close>

fun unsplit :: "string list \<Rightarrow> string \<Rightarrow> string" where
  "unsplit [] seps = []"
| "unsplit [s] seps = s"
| "unsplit (s # t # ss) [] = s @ unsplit (t # ss) []"
| "unsplit (s # t # ss) (c # cs) = s @ c # unsplit (t # ss) cs"

text \<open>
  The pieces \<open>ps\<close> are the segments of \<open>raw\<close>: no piece holds a separator, there is one
  piece more than there are separators in \<open>raw\<close>, and the pieces with the separators of
  \<open>raw\<close> between them, in order, are \<open>raw\<close>.
\<close>

definition segments_of :: "string \<Rightarrow> string list \<Rightarrow> bool" where
  "segments_of raw ps =
     (list_all (\<lambda>s. \<not> list_ex is_separator s) ps \<and>
      length ps = Suc (length (filter is_separator raw)) \<and>
      unsplit ps (filter is_separator raw) = raw)"

subsection \<open>The presence rule of the specification\<close>

text \<open>
  The required fields, in the order of the data model.
\<close>

definition required_fields :: "string list" where
  "required_fields =
     [''current_seat'', ''proposed_seats'', ''arbitration_agreement_text'',
      ''institution_rules'', ''governing_law'']"

definition text_fields :: "string list" where
  "text_fields =
     [''current_seat'', ''arbitration_agreement_text'', ''institution_rules'', ''governing_law'']"

text \<open>
  A text field is present when it holds a string that is non-empty after trimming; a field
  that is absent or holds anything but a string is not.
\<close>

definition nonempty_string :: "jsval \<Rightarrow> bool" where
  "nonempty_string v = (case v of JStr s \<Rightarrow> trim s \<noteq> [] | _ \<Rightarrow> False)"

definition text_present :: "intake \<Rightarrow> string \<Rightarrow> bool" where
  "text_present i k = nonempty_string (get_prop i k)"

text \<open>
  The sequence \<open>proposed_seats\<close> is present when it is an array with at least one element
  that is a string, non-empty after trimming.
\<close>

definition seats_present :: "intake \<Rightarrow> bool" where
  "seats_present i =
     (case get_prop i ''proposed_seats'' of
        JArr xs \<Rightarrow> list_ex nonempty_string xs
      | _ \<Rightarrow> False)"

definition all_required_present :: "intake \<Rightarrow> bool" where
  "all_required_present i =
     (text_present i ''current_seat'' \<and> seats_present i \<and>
      text_present i ''arbitration_agreement_text'' \<and>
      text_present i ''institution_rules'' \<and> text_present i ''governing_law'')"

text \<open>
  An intake typed as the data model has it: a text field holds a string or no text at all
  (it is absent, \<open>null\<close>, \<open>false\<close> or \<open>0\<close>), and \<open>proposed_seats\<close>, when it is an
  array, holds strings only.
\<close>

definition text_typed :: "jsval \<Rightarrow> bool" where
  "text_typed v = (case v of JStr s \<Rightarrow> True | _ \<Rightarrow> \<not> truthy v)"

definition is_string :: "jsval \<Rightarrow> bool" where
  "is_string v = (case v of JStr s \<Rightarrow> True | _ \<Rightarrow> False)"

definition seats_typed :: "jsval \<Rightarrow> bool" where
  "seats_typed v = (case v of JArr xs \<Rightarrow> list_all is_string xs | _ \<Rightarrow> True)"

definition intake_typed :: "intake \<Rightarrow> bool" where
  "intake_typed i =
     (list_all (\<lambda>k. text_typed (get_prop i k)) text_fields \<and>
      seats_typed (get_prop i ''proposed_seats''))"

text \<open>
  The values that \<open>String\<close> converts without throwing: every value but an object with an
  own key \<open>toString\<close>, and but an array that holds, at any depth of arrays, such an
  object.
\<close>

fun printable :: "jsval \<Rightarrow> bool" where
  "printable (JObj kvs) = (''toString'' \<notin> set (map fst kvs))"
| "printable (JArr xs) = list_all (\<lambda>x. x = JNull \<or> x = JUndefined \<or> printable x) xs"
| "printable v = True"

text \<open>
  An intake on which \<open>computeMissingFromIntake\<close> converts printable values only: the
  value of each text field, unless it is falsy and replaced by the empty string, and each
  element of \<open>proposed_seats\<close> when that is an array.
\<close>

definition intake_printable :: "intake \<Rightarrow> bool" where
  "intake_printable i =
     (list_all (\<lambda>k. printable (js_or (get_prop i k) (JStr []))) text_fields \<and>
      (case get_prop i ''proposed_seats'' of
         JArr xs \<Rightarrow> list_all printable xs
       | _ \<Rightarrow> True))"

text \<open>
  The string that \<open>String\<close> gives when it does not throw, and with it the two tests of
  \<open>computeMissingFromIntake\<close> and the list it builds, named for the proofs.
\<close>

definition printed :: "jsval \<Rightarrow> string" where
  "printed v = (case String_js v of Inl e \<Rightarrow> [] | Inr s \<Rightarrow> s)"

definition text_missing :: "intake \<Rightarrow> string \<Rightarrow> bool" where
  "text_missing i k = (trim (printed (js_or (get_prop i k) (JStr []))) = [])"

definition seats_missing :: "intake \<Rightarrow> bool" where
  "seats_missing i =
     (case get_prop i ''proposed_seats'' of
        JArr xs \<Rightarrow> filter (\<lambda>x. trim (printed x) \<noteq> []) xs = []
      | _ \<Rightarrow> True)"

definition missing_list :: "intake \<Rightarrow> string list" where
  "missing_list i =
     (if text_missing i ''current_seat'' then [''current_seat''] else []) @
     (if seats_missing i then [''proposed_seats''] else []) @
     (if text_missing i ''arbitration_agreement_text'' then [''arbitration_agreement_text''] else []) @
     (if text_missing i ''institution_rules'' then [''institution_rules''] else []) @
     (if text_missing i ''governing_law'' then [''governing_law''] else [])"

section \<open>The API client (api.ts)\<close>

text \<open>
  A request as \<open>apiFetch\<close> hands it to \<open>fetch\<close>, and the parts of the response that
  \<open>apiFetch\<close> reads: the status (\<open>res.ok\<close> is a status from 200 to 299), the
  \<open>content-type\<close> header (\<open>None\<close> when absent), the result of \<open>res.json()\<close>
  (\<open>None\<close> when the body is not JSON and the call throws) and of \<open>res.text()\<close>.
\<close>

datatype req_body = NoBody | TextBody string | FormDataBody

record request =
  url :: string
  http_method :: "string option"
  headers :: "(string \<times> string) list"
  body :: req_body

record response =
  status :: nat
  content_type :: "string option"
  json :: "jsval option"
  body_text :: string

definition ok :: "response \<Rightarrow> bool" where
  "ok res = (200 \<le> status res \<and> status res \<le> 299)"

text \<open>
  The surroundings of \<open>apiFetch\<close>: the constant \<open>API_BASE\<close>, the access token in local
  storage, and the network (\<open>fetch\<close> may reject).
\<close>

record env =
  API_BASE :: string
  access_token :: "string option"
  fetch :: "request \<Rightarrow> js_error + response"

text \<open>\<open>s.includes(sub)\<close>.\<close>

fun str_includes :: "string \<Rightarrow> string \<Rightarrow> bool" where
  "str_includes [] sub = (sub = [])"
| "str_includes (c # cs) sub = (prefix sub (c # cs) \<or> str_includes cs sub)"

text \<open>Reading a key of a parsed JSON object: of two equal keys the later one counts.\<close>

definition obj_get :: "(string \<times> jsval) list \<Rightarrow> string \<Rightarrow> jsval option" where
  "obj_get kvs k = map_of (rev kvs) k"

definition header_or_empty :: "response \<Rightarrow> string" where
  "header_or_empty res = (case content_type res of None \<Rightarrow> [] | Some c \<Rightarrow> c)"

definition parseErrorBody :: "response \<Rightarrow> jsval" where
  "parseErrorBody res =
     (let contentType = header_or_empty res
      in if str_includes contentType ''application/json''
         then (case json res of None \<Rightarrow> JUndefined | Some v \<Rightarrow> v)
         else JStr (body_text res))"

text \<open>
  \<open>headers.set(name, value)\<close>: the value loses its leading and trailing tabs, line
  feeds, carriage returns and spaces; what is left must hold no NUL, line feed or carriage
  return, or the call throws a \<open>TypeError\<close>. The new value replaces an older one of the
  same name. (Both names that \<open>apiFetch\<close> sets are valid header names.)
\<close>

definition http_whitespace :: "char \<Rightarrow> bool" where
  "http_whitespace c = (c \<in> set [CHR 0x09, CHR 0x0A, CHR 0x0D, CHR 0x20])"

definition normalize_header_value :: "string \<Rightarrow> string" where
  "normalize_header_value v = rev (dropWhile http_whitespace (rev (dropWhile http_whitespace v)))"

definition header_value_ok :: "string \<Rightarrow> bool" where
  "header_value_ok v = (\<not> list_ex (\<lambda>c. c \<in> set [CHR 0x00, CHR 0x0A, CHR 0x0D]) v)"

definition headers_set ::
  "(string \<times> string) list \<Rightarrow> string \<Rightarrow> string \<Rightarrow> js_error + (string \<times> string) list" where
  "headers_set hs name v =
     (let v' = normalize_header_value v
      in if header_value_ok v' then Inr (filter (\<lambda>h. fst h \<noteq> name) hs @ [(name, v')])
         else Inl TypeError)"

text \<open>
  \<open>apiFetch\<close>. No caller in api.ts passes \<open>init.headers\<close>, so the headers start empty;
  \<open>init\<close> is the method and the body. The headers are set before \<open>fetch\<close> is called,
  so a token that makes no valid header value ends the call there.
\<close>

definition apiFetch :: "env \<Rightarrow> string \<Rightarrow> string option \<Rightarrow> req_body \<Rightarrow> js_error + jsval" where
  "apiFetch e path init_method init_body =
     (let headers0 = [];
          isFormData = (init_body = FormDataBody)
      in case (if \<not> isFormData \<and> map_of headers0 ''Content-Type'' = None
               then headers_set headers0 ''Content-Type'' ''application/json''
               else Inr headers0) of
           Inl err \<Rightarrow> Inl err
         | Inr headers1 \<Rightarrow>
     (case (case access_token e of
              None \<Rightarrow> Inr headers1
            | Some token \<Rightarrow>
                if token \<noteq> [] then headers_set headers1 ''Authorization'' (''Bearer '' @ token)
                else Inr headers1) of
        Inl err \<Rightarrow> Inl err
      | Inr headers2 \<Rightarrow>
     (case fetch e \<lparr>url = API_BASE e @ path, http_method = init_method,
                     headers = headers2, body = init_body\<rparr> of
        Inl err \<Rightarrow> Inl err
      | Inr res \<Rightarrow>
          if \<not> ok res then
            (let b = parseErrorBody res;
                 detail =
                   (case b of
                      JObj kvs \<Rightarrow> (case obj_get kvs ''detail'' of Some d \<Rightarrow> d | None \<Rightarrow> b)
                    | _ \<Rightarrow> b)
             in Inl (ApiError
                       (case detail of
                          JStr d \<Rightarrow> d
                        | _ \<Rightarrow> ''Request failed ('' @ string_of_nat (status res) @ '')'')
                       (status res) b))
          else
            (let contentType = header_or_empty res
             in if str_includes contentType ''application/json''
                then (case json res of None \<Rightarrow> Inl SyntaxError | Some v \<Rightarrow> Inr v)
                else Inr (JStr (body_text res))))))"

text \<open>\<open>api.regenerateReport\<close>, declared to resolve to \<open>{ ok: boolean }\<close>.\<close>

definition regenerateReport :: "env \<Rightarrow> string \<Rightarrow> js_error + jsval" where
  "regenerateReport e projectId =
     apiFetch e (''/projects/'' @ projectId @ ''/report/regenerate'') (Some ''POST'') NoBody"

text \<open>
  The shape \<open>{accepted: bool, reason?}\<close> of the specification: an object with a boolean
  \<open>accepted\<close> and, when \<open>reason\<close> is there, a string \<open>reason\<close>.
\<close>

definition accepted_shape :: "jsval \<Rightarrow> bool" where
  "accepted_shape v =
     (case v of
        JObj kvs \<Rightarrow>
          (case obj_get kvs ''accepted'' of
             Some (JBool b) \<Rightarrow>
               (case obj_get kvs ''reason'' of
                  None \<Rightarrow> True
                | Some (JStr r) \<Rightarrow> True
                | Some _ \<Rightarrow> False)
           | _ \<Rightarrow> False)
      | _ \<Rightarrow> False)"

text \<open>A server that answers every request with 409 and a JSON \<open>detail\<close>.\<close>

definition conflict_response :: response where
  "conflict_response =
     \<lparr>status = 409, content_type = Some ''application/json'',
      json = Some (JObj [(''detail'', JStr ''Report generation already running'')]),
      body_text = []\<rparr>"

definition conflict_fetch :: "request \<Rightarrow> js_error + response" where
  "conflict_fetch req = Inr conflict_response"

definition conflict_env :: env where
  "conflict_env =
     \<lparr>API_BASE = ''http://127.0.0.1:8000'', access_token = Some ''t'', fetch = conflict_fetch\<rparr>"

text \<open>
  Whether the stored token lets \<open>apiFetch\<close> set its headers, and the request that
  \<open>api.regenerateReport\<close> then hands to \<open>fetch\<close>.
\<close>

definition token_ok :: "env \<Rightarrow> bool" where
  "token_ok e =
     (case access_token e of
        None \<Rightarrow> True
      | Some token \<Rightarrow>
          token = [] \<or> header_value_ok (normalize_header_value (''Bearer '' @ token)))"

definition regenerate_request :: "env \<Rightarrow> string \<Rightarrow> request" where
  "regenerate_request e projectId =
     \<lparr>url = API_BASE e @ ''/projects/'' @ projectId @ ''/report/regenerate'',
      http_method = Some ''POST'',
      headers =
        (''Content-Type'', ''application/json'') #
        (case access_token e of
           None \<Rightarrow> []
         | Some token \<Rightarrow>
             if token \<noteq> []
             then [(''Authorization'', normalize_header_value (''Bearer '' @ token))]
             else []),
      body = NoBody\<rparr>"

text \<open>
  The message of the \<open>ApiError\<close> for an error body and a status: the \<open>detail\<close> of an
  object body when that is a string, a string body itself, and otherwise
  \<open>Request failed (status)\<close>.
\<close>

definition has_string_detail :: "jsval \<Rightarrow> bool" where
  "has_string_detail b =
     (case b of
        JObj kvs \<Rightarrow> (case obj_get kvs ''detail'' of Some (JStr d) \<Rightarrow> True | _ \<Rightarrow> False)
      | _ \<Rightarrow> False)"

text \<open>A server that answers every request with 200 and the declared body \<open>{ok: true}\<close>.\<close>

definition ok_response :: response where
  "ok_response =
     \<lparr>status = 200, content_type = Some ''application/json; charset=utf-8'',
      json = Some (JObj [(''ok'', JBool True)]), body_text = []\<rparr>"

definition ok_fetch :: "request \<Rightarrow> js_error + response" where
  "ok_fetch req = Inr ok_response"

definition ok_env :: env where
  "ok_env = \<lparr>API_BASE = ''http://127.0.0.1:8000'', access_token = None, fetch = ok_fetch\<rparr>"

text \<open>A server that answers every request with 202 and a plain text body.\<close>

definition text_response :: response where
  "text_response = \<lparr>status = 202, content_type = None, json = None, body_text = ''started''\<rparr>"

definition text_fetch :: "request \<Rightarrow> js_error + response" where
  "text_fetch req = Inr text_response"

definition text_env :: env where
  "text_env = \<lparr>API_BASE = ''http://127.0.0.1:8000'', access_token = Some [], fetch = text_fetch\<rparr>"

text \<open>A server that answers every request with 500 and a plain text body.\<close>

definition crash_response :: response where
  "crash_response =
     \<lparr>status = 500, content_type = Some ''text/plain'', json = None,
      body_text = ''Internal Server Error''\<rparr>"

definition crash_fetch :: "request \<Rightarrow> js_error + response" where
  "crash_fetch req = Inr crash_response"

definition crash_env :: env where
  "crash_env = \<lparr>API_BASE = ''http://127.0.0.1:8000'', access_token = None, fetch = crash_fetch\<rparr>"

text \<open>
  A server that answers every request with 200, the content type of JSON and a body that
  is not JSON; one that answers 502 in the same way; and one that answers 404 with a JSON
  object that has no \<open>detail\<close>.
\<close>

definition broken_response :: response where
  "broken_response =
     \<lparr>status = 200, content_type = Some ''application/json'', json = None,
      body_text = ''<html>''\<rparr>"

definition broken_fetch :: "request \<Rightarrow> js_error + response" where
  "broken_fetch req = Inr broken_response"

definition broken_env :: env where
  "broken_env = \<lparr>API_BASE = ''http://127.0.0.1:8000'', access_token = None, fetch = broken_fetch\<rparr>"

definition gateway_fetch :: "request \<Rightarrow> js_error + response" where
  "gateway_fetch req = Inr (broken_response\<lparr>status := 502\<rparr>)"

definition gateway_env :: env where
  "gateway_env = \<lparr>API_BASE = ''http://127.0.0.1:8000'', access_token = None, fetch = gateway_fetch\<rparr>"

definition notfound_response :: response where
  "notfound_response =
     \<lparr>status = 404, content_type = Some ''application/json'',
      json = Some (JObj [(''error'', JStr ''no such project'')]), body_text = []\<rparr>"

definition notfound_fetch :: "request \<Rightarrow> js_error + response" where
  "notfound_fetch req = Inr notfound_response"

definition notfound_env :: env where
  "notfound_env =
     \<lparr>API_BASE = ''http://127.0.0.1:8000'', access_token = None, fetch = notfound_fetch\<rparr>"

text \<open>The network is down; and a stored token with a line feed inside.\<close>

definition offline_fetch :: "request \<Rightarrow> js_error + response" where
  "offline_fetch req = Inl TypeError"

definition offline_env :: env where
  "offline_env = \<lparr>API_BASE = ''http://127.0.0.1:8000'', access_token = None, fetch = offline_fetch\<rparr>"

definition bad_token_env :: env where
  "bad_token_env =
     \<lparr>API_BASE = ''http://127.0.0.1:8000'', access_token = Some [CHR ''a'', CHR 0x0A, CHR ''b''],
      fetch = ok_fetch\<rparr>"

section \<open>The page handlers (MainPage.tsx)\<close>

text \<open>The typed values of api.ts that the page holds.\<close>

record ProjectOut =
  po_id :: string
  po_owner_id :: string
  po_title :: string
  po_description :: "string option"
  po_status :: string
  po_intake :: intake
  po_created_at :: string
  po_updated_at :: string

record ChatMessageOut =
  cm_id :: string
  cm_role :: string
  cm_content :: string
  cm_created_at :: string

datatype ui_role = RoleUser | RoleAi

record UiMessage =
  role :: ui_role
  content :: string
  msg_id :: "string option"
  msg_created_at :: "string option"

text \<open>The payload of \<open>api.createProject\<close>; an optional key that is left out is \<open>None\<close>.\<close>

record create_payload =
  cp_title :: string
  cp_description :: "string option"
  cp_status :: "string option"
  cp_intake :: "intake option"

text \<open>
  The calls that the handlers make to the backend, kept in the order they are made.
\<close>

datatype api_call =
    ListProjects
  | GetProject string
  | CreateProject create_payload
  | CreateProjectWithDocuments create_payload "string list"
  | SendMessage string string
  | RegenerateReport string

text \<open>
  The backend as the page sees it: the outcome of each call, which may depend on all the
  calls made before it. An outcome is the value the promise resolves to, or the error it
  rejects with.
\<close>

record server =
  srv_listProjects :: "api_call list \<Rightarrow> js_error + ProjectOut list"
  srv_getProject :: "api_call list \<Rightarrow> string \<Rightarrow> js_error + ProjectOut"
  srv_createProject :: "api_call list \<Rightarrow> create_payload \<Rightarrow> js_error + ProjectOut"
  srv_createProjectWithDocuments ::
    "api_call list \<Rightarrow> create_payload \<Rightarrow> string list \<Rightarrow> js_error + ProjectOut"
  srv_sendMessage :: "api_call list \<Rightarrow> string \<Rightarrow> string \<Rightarrow> js_error + ChatMessageOut \<times> ChatMessageOut"
  srv_regenerateReport :: "api_call list \<Rightarrow> string \<Rightarrow> js_error + jsval"

text \<open>
  The state of the page that the handlers below read and write (the \<open>useState\<close> cells
  and the ref \<open>projectsFetchInFlight\<close>), the guest flag read from local storage, and the
  calls made so far. A handler runs from its start to its end with no other handler in
  between.
\<close>

record ui_state =
  guest :: bool
  activeView :: string
  projects :: "ProjectOut list"
  projectsLoading :: bool
  projectsError :: "string option"
  projectsFetchInFlight :: bool
  chattingProject :: "ProjectOut option"
  createTitle :: string
  createCurrentSeat :: string
  createProposedSeats :: string
  createAdditionalDetails :: string
  createFiles :: "string list"
  createLoading :: bool
  createError :: "string option"
  messages :: "UiMessage list"
  inputMessage :: string
  chatError :: "string option"
  reportLoading :: bool
  calls :: "api_call list"

text \<open>\<open>err instanceof ApiError ? err.message : fallback\<close>.\<close>

definition message_or :: "js_error \<Rightarrow> string \<Rightarrow> string" where
  "message_or err fallback = (case err of ApiError m st b \<Rightarrow> m | _ \<Rightarrow> fallback)"

text \<open>\<open>s.trim() || null\<close>, stored in an intake.\<close>

definition trimmed_or_null :: "string \<Rightarrow> jsval" where
  "trimmed_or_null s = (if trim s \<noteq> [] then JStr (trim s) else JNull)"

definition loadProjects :: "server \<Rightarrow> bool \<Rightarrow> ui_state \<Rightarrow> ui_state" where
  "loadProjects srv silent st =
     (if guest st then st\<lparr>projects := []\<rparr>
      else if projectsFetchInFlight st then st
      else
        (let st1 = st\<lparr>projectsFetchInFlight := True\<rparr>;
             st2 = (if \<not> silent then st1\<lparr>projectsLoading := True\<rparr> else st1);
             st3 = st2\<lparr>projectsError := None, calls := calls st2 @ [ListProjects]\<rparr>;
             st4 =
               (case srv_listProjects srv (calls st2) of
                  Inr data \<Rightarrow> st3\<lparr>projects := data\<rparr>
                | Inl err \<Rightarrow> st3\<lparr>projectsError := Some (message_or err ''Failed to load projects'')\<rparr>);
             st5 = (if \<not> silent then st4\<lparr>projectsLoading := False\<rparr> else st4)
         in st5\<lparr>projectsFetchInFlight := False\<rparr>))"

definition handleCreate :: "server \<Rightarrow> ui_state \<Rightarrow> ui_state" where
  "handleCreate srv st =
     (if guest st then st\<lparr>createError := Some ''Login is required to create and save projects.''\<rparr>
      else
        (let title = trim (createTitle st)
         in if title = [] then st\<lparr>createError := Some ''Title is required.''\<rparr>
            else
              (let st1 = st\<lparr>createLoading := True, createError := None\<rparr>;
                   intake =
                     [''current_seat'' \<mapsto> trimmed_or_null (createCurrentSeat st),
                      ''proposed_seats'' \<mapsto> JArr (map JStr (parseProposedSeats (createProposedSeats st))),
                      ''additional_details'' \<mapsto> trimmed_or_null (createAdditionalDetails st)];
                   payload =
                     \<lparr>cp_title = title, cp_description = None, cp_status = Some ''working'',
                      cp_intake = Some intake\<rparr>;
                   withDocs = (length (createFiles st) > 0);
                   st2 =
                     st1\<lparr>calls := calls st1 @
                            [if withDocs then CreateProjectWithDocuments payload (createFiles st)
                             else CreateProject payload]\<rparr>;
                   st3 =
                     (case (if withDocs
                            then srv_createProjectWithDocuments srv (calls st1) payload (createFiles st)
                            else srv_createProject srv (calls st1) payload) of
                        Inr created \<Rightarrow>
                          loadProjects srv False
                            (st2\<lparr>createTitle := [], createCurrentSeat := [],
                                 createProposedSeats := [], createAdditionalDetails := [],
                                 createFiles := [], activeView := ''projects''\<rparr>)
                      | Inl err \<Rightarrow>
                          st2\<lparr>createError := Some (message_or err ''Failed to create project'')\<rparr>)
               in st3\<lparr>createLoading := False\<rparr>)))"

definition handleSendMessage :: "server \<Rightarrow> ui_state \<Rightarrow> ui_state" where
  "handleSendMessage srv st =
     (if guest st then st\<lparr>chatError := Some ''Login is required to chat.''\<rparr>
      else
        (case chattingProject st of
           None \<Rightarrow> st
         | Some cp \<Rightarrow>
             (let msg = trim (inputMessage st)
              in if msg = [] then st
                 else
                   (let st1 =
                          st\<lparr>inputMessage := [], chatError := None,
                             messages := messages st @
                               [\<lparr>role = RoleUser, content = msg, msg_id = None,
                                 msg_created_at = None\<rparr>],
                             calls := calls st @ [SendMessage (po_id cp) msg]\<rparr>
                    in case srv_sendMessage srv (calls st) (po_id cp) msg of
                         Inr res \<Rightarrow>
                           (let st2 =
                                  st1\<lparr>messages := messages st1 @
                                        [\<lparr>role = RoleAi, content = cm_content (snd res),
                                          msg_id = Some (cm_id (snd res)),
                                          msg_created_at = Some (cm_created_at (snd res))\<rparr>],
                                      calls := calls st1 @ [GetProject (po_id cp)]\<rparr>
                            in case srv_getProject srv (calls st1) (po_id cp) of
                                 Inr p \<Rightarrow>
                                   st2\<lparr>chattingProject := Some p,
                                       projects :=
                                         map (\<lambda>x. if po_id x = po_id p then p else x) (projects st2)\<rparr>
                               | Inl err \<Rightarrow> st2)
                       | Inl err \<Rightarrow>
                           st1\<lparr>chatError := Some (message_or err ''Failed to send message'')\<rparr>))))"

text \<open>
  \<open>pollProjectUntilNotWorking\<close>: the loop \<open>for (let i = 0; i < 25; i++)\<close>, from the
  value of \<open>i\<close>. A failed poll is caught and the loop goes on; the pause of 900 ms between
  polls has no effect on the state.
\<close>

function poll_loop :: "server \<Rightarrow> string \<Rightarrow> nat \<Rightarrow> ui_state \<Rightarrow> ui_state" where
  "poll_loop srv projectId i st =
     (if i < 25 then
        (let st1 = st\<lparr>calls := calls st @ [GetProject projectId]\<rparr>
         in case srv_getProject srv (calls st) projectId of
              Inr p \<Rightarrow>
                (let st2 =
                       st1\<lparr>chattingProject :=
                             (case chattingProject st1 of
                                None \<Rightarrow> None
                              | Some cur \<Rightarrow> if po_id cur = po_id p then Some p else Some cur),
                           projects :=
                             map (\<lambda>x. if po_id x = po_id p then p else x) (projects st1)\<rparr>
                 in if po_status p \<noteq> ''working'' then st2
                    else poll_loop srv projectId (Suc i) st2)
            | Inl err \<Rightarrow> poll_loop srv projectId (Suc i) st1)
      else st)"
  by pat_completeness auto
termination
  by (relation "measure (\<lambda>(srv, projectId, i, st). 25 - i)") auto

declare poll_loop.simps [simp del]

definition pollProjectUntilNotWorking :: "server \<Rightarrow> string \<Rightarrow> ui_state \<Rightarrow> ui_state" where
  "pollProjectUntilNotWorking srv projectId st = poll_loop srv projectId 0 st"

definition handleGenerateReport :: "server \<Rightarrow> ui_state \<Rightarrow> ui_state" where
  "handleGenerateReport srv st =
     (if guest st then st\<lparr>chatError := Some ''Login is required to generate a report.''\<rparr>
      else
        (case chattingProject st of
           None \<Rightarrow> st
         | Some cp \<Rightarrow>
             (let st1 =
                    st\<lparr>reportLoading := True, chatError := None,
                       calls := calls st @ [RegenerateReport (po_id cp)]\<rparr>;
                  st2 =
                    (case srv_regenerateReport srv (calls st) (po_id cp) of
                       Inr res \<Rightarrow>
                         pollProjectUntilNotWorking srv (po_id cp)
                           (st1\<lparr>messages := messages st1 @
                                  [\<lparr>role = RoleAi,
                                    content = ''Report regeneration started for this project.'',
                                    msg_id = None, msg_created_at = None\<rparr>]\<rparr>)
                     | Inl err \<Rightarrow>
                         st1\<lparr>chatError := Some (message_or err ''Failed to regenerate report'')\<rparr>)
              in st2\<lparr>reportLoading := False\<rparr>)))"

text \<open>
  The outcome of the \<open>k\<close>-th poll of a run of \<open>pollProjectUntilNotWorking\<close> that starts
  in \<open>st\<close> (counting from 0), and whether a poll outcome ends the loop: the call succeeded
  and the status it shows is not \<open>working\<close>.
\<close>

definition poll_outcome :: "server \<Rightarrow> string \<Rightarrow> ui_state \<Rightarrow> nat \<Rightarrow> js_error + ProjectOut" where
  "poll_outcome srv projectId st k =
     srv_getProject srv (calls st @ replicate k (GetProject projectId)) projectId"

definition settled :: "js_error + ProjectOut \<Rightarrow> bool" where
  "settled r = (case r of Inl err \<Rightarrow> False | Inr p \<Rightarrow> po_status p \<noteq> ''working'')"

text \<open>The number of polls a run made: the calls it added.\<close>

definition polls_made :: "server \<Rightarrow> string \<Rightarrow> ui_state \<Rightarrow> nat" where
  "polls_made srv projectId st =
     length (calls (pollProjectUntilNotWorking srv projectId st)) - length (calls st)"

text \<open>
  The number of polls of a loop that may still make \<open>f\<close> polls, when \<open>P k\<close> says
  whether the \<open>k\<close>-th coming poll ends the loop.
\<close>

fun count_polls :: "(nat \<Rightarrow> bool) \<Rightarrow> nat \<Rightarrow> nat" where
  "count_polls P 0 = 0"
| "count_polls P (Suc f) = (if P 0 then 1 else Suc (count_polls (\<lambda>k. P (Suc k)) f))"

subsection \<open>An example page and backend\<close>

definition project_working :: ProjectOut where
  "project_working =
     \<lparr>po_id = ''p1'', po_owner_id = ''u1'', po_title = ''Seat change'', po_description = None,
      po_status = ''working'', po_intake = Map.empty, po_created_at = ''t0'',
      po_updated_at = ''t0''\<rparr>"

definition project_complete :: ProjectOut where
  "project_complete = project_working\<lparr>po_status := ''complete'', po_updated_at := ''t1''\<rparr>"

definition demo_listProjects :: "api_call list \<Rightarrow> js_error + ProjectOut list" where
  "demo_listProjects history = Inr [project_working]"

text \<open>The first poll shows \<open>working\<close>, the second fails, every later one shows \<open>complete\<close>.\<close>

definition demo_getProject :: "api_call list \<Rightarrow> string \<Rightarrow> js_error + ProjectOut" where
  "demo_getProject history projectId =
     (if length history = 0 then Inr project_working
      else if length history = 1 then Inl TypeError
      else Inr project_complete)"

definition demo_createProject :: "api_call list \<Rightarrow> create_payload \<Rightarrow> js_error + ProjectOut" where
  "demo_createProject history payload = Inr project_working"

definition demo_createProjectWithDocuments ::
  "api_call list \<Rightarrow> create_payload \<Rightarrow> string list \<Rightarrow> js_error + ProjectOut" where
  "demo_createProjectWithDocuments history payload files = Inr project_working"

definition demo_sendMessage ::
  "api_call list \<Rightarrow> string \<Rightarrow> string \<Rightarrow> js_error + ChatMessageOut \<times> ChatMessageOut" where
  "demo_sendMessage history projectId msg =
     Inr (\<lparr>cm_id = ''m1'', cm_role = ''user'', cm_content = msg, cm_created_at = ''t0''\<rparr>,
          \<lparr>cm_id = ''m2'', cm_role = ''assistant'', cm_content = ''Noted.'', cm_created_at = ''t0''\<rparr>)"

definition demo_regenerateReport :: "api_call list \<Rightarrow> string \<Rightarrow> js_error + jsval" where
  "demo_regenerateReport history projectId = Inr (JObj [(''ok'', JBool True)])"

definition demo_server :: server where
  "demo_server =
     \<lparr>srv_listProjects = demo_listProjects, srv_getProject = demo_getProject,
      srv_createProject = demo_createProject,
      srv_createProjectWithDocuments = demo_createProjectWithDocuments,
      srv_sendMessage = demo_sendMessage, srv_regenerateReport = demo_regenerateReport\<rparr>"

text \<open>The page as it is first rendered for a logged-in user.\<close>

definition page_initial :: ui_state where
  "page_initial =
     \<lparr>guest = False, activeView = ''newproject'', projects = [], projectsLoading = False,
      projectsError = None, projectsFetchInFlight = False, chattingProject = None,
      createTitle = [], createCurrentSeat = [], createProposedSeats = [],
      createAdditionalDetails = [], createFiles = [], createLoading = False,
      createError = None, messages = [], inputMessage = [], chatError = None,
      reportLoading = False, calls = []\<rparr>"

text \<open>The chat of project \<open>p1\<close> is open and the input holds white space only.\<close>

definition page_blank_input :: ui_state where
  "page_blank_input =
     page_initial\<lparr>activeView := ''projects'', projects := [project_working],
                  chattingProject := Some project_working,
                  inputMessage := [CHR 0x20, CHR 0x20, CHR 0x0A]\<rparr>"

section \<open>The table \<open>public.projects\<close> (the two migrations)\<close>

text \<open>
  A row of \<open>public.projects\<close> after both migrations. Every column holds a value or SQL
  \<open>NULL\<close> (\<open>None\<close>); the constraints below say which rows the table accepts. The
  columns \<open>id\<close>, \<open>status\<close> and \<open>intake\<close> carry the prefix \<open>row_\<close>. A \<open>uuid\<close> is a
  word of 128 bits and a \<open>bigint\<close> one of 64 bits, a \<open>text\<close> is a string, a
  \<open>timestamptz\<close> is a point in time counted as a number.
\<close>

type_synonym uuid = "128 word"

type_synonym bigint = "64 word"

record project_row =
  row_id :: "uuid option"
  owner_id :: "uuid option"
  title :: "string option"
  description :: "string option"
  row_status :: "string option"
  row_intake :: "jsval option"
  created_at :: "nat option"
  updated_at :: "nat option"
  report_bucket :: "string option"
  report_path :: "string option"
  report_mime_type :: "string option"
  report_byte_size :: "bigint option"
  report_generated_at :: "nat option"
  report_error :: "string option"

text \<open>
  What a statement says about one column: nothing (the column is left out), \<open>NULL\<close>, or
  a value.
\<close>

datatype 'a assign = Omitted | Null | Val 'a

record project_values =
  v_id :: "uuid assign"
  v_owner_id :: "uuid assign"
  v_title :: "string assign"
  v_description :: "string assign"
  v_status :: "string assign"
  v_intake :: "jsval assign"
  v_created_at :: "nat assign"
  v_updated_at :: "nat assign"
  v_report_bucket :: "string assign"
  v_report_path :: "string assign"
  v_report_mime_type :: "string assign"
  v_report_byte_size :: "bigint assign"
  v_report_generated_at :: "nat assign"
  v_report_error :: "string assign"

datatype db_error = NotNullViolation | CheckViolation | UniqueViolation

text \<open>The value a column gets: a column that is left out gets \<open>d\<close>.\<close>

definition column_value :: "'a assign \<Rightarrow> 'a option \<Rightarrow> 'a option" where
  "column_value a d = (case a of Omitted \<Rightarrow> d | Null \<Rightarrow> None | Val v \<Rightarrow> Some v)"

text \<open>
  \<open>check (status in ('working','complete','intervention'))\<close>. A check constraint accepts
  \<open>NULL\<close>; the \<open>not null\<close> of the column refuses it.
\<close>

definition status_values :: "string list" where
  "status_values = [''working'', ''complete'', ''intervention'']"

definition status_check :: "project_row \<Rightarrow> bool" where
  "status_check r = (case row_status r of None \<Rightarrow> True | Some s \<Rightarrow> s \<in> set status_values)"

definition not_null_ok :: "project_row \<Rightarrow> bool" where
  "not_null_ok r =
     (row_id r \<noteq> None \<and> owner_id r \<noteq> None \<and> title r \<noteq> None \<and> row_status r \<noteq> None \<and>
      row_intake r \<noteq> None \<and> created_at r \<noteq> None \<and> updated_at r \<noteq> None)"

definition constraint_error :: "project_row \<Rightarrow> db_error option" where
  "constraint_error r =
     (if \<not> not_null_ok r then Some NotNullViolation
      else if \<not> status_check r then Some CheckViolation
      else None)"

text \<open>
  \<open>INSERT\<close> of one row. The defaults of the columns: \<open>gen_random_uuid()\<close> (the
  parameter \<open>fresh\<close>), \<open>'working'\<close>, \<open>'{}'::jsonb\<close> and \<open>now()\<close>; the other columns
  default to \<open>NULL\<close>.
\<close>

definition inserted_row :: "uuid \<Rightarrow> nat \<Rightarrow> project_values \<Rightarrow> project_row" where
  "inserted_row fresh now vs =
     \<lparr>row_id = column_value (v_id vs) (Some fresh),
      owner_id = column_value (v_owner_id vs) None,
      title = column_value (v_title vs) None,
      description = column_value (v_description vs) None,
      row_status = column_value (v_status vs) (Some ''working''),
      row_intake = column_value (v_intake vs) (Some (JObj [])),
      created_at = column_value (v_created_at vs) (Some now),
      updated_at = column_value (v_updated_at vs) (Some now),
      report_bucket = column_value (v_report_bucket vs) None,
      report_path = column_value (v_report_path vs) None,
      report_mime_type = column_value (v_report_mime_type vs) None,
      report_byte_size = column_value (v_report_byte_size vs) None,
      report_generated_at = column_value (v_report_generated_at vs) None,
      report_error = column_value (v_report_error vs) None\<rparr>"

definition insert_project ::
  "uuid \<Rightarrow> nat \<Rightarrow> project_values \<Rightarrow> project_row list \<Rightarrow> db_error + project_row list" where
  "insert_project fresh now vs tbl =
     (let r = inserted_row fresh now vs
      in case constraint_error r of
           Some e \<Rightarrow> Inl e
         | None \<Rightarrow>
             if row_id r \<in> set (map row_id tbl) then Inl UniqueViolation
             else Inr (tbl @ [r]))"

text \<open>
  \<open>UPDATE ... SET ... WHERE\<close>. A column that the statement leaves out keeps its value;
  the trigger \<open>trg_projects_updated_at\<close> then sets \<open>updated_at\<close> to \<open>now()\<close>. The
  statement fails as a whole when one new row breaks a constraint.
\<close>

definition updated_row :: "nat \<Rightarrow> project_values \<Rightarrow> project_row \<Rightarrow> project_row" where
  "updated_row now vs r =
     \<lparr>row_id = column_value (v_id vs) (row_id r),
      owner_id = column_value (v_owner_id vs) (owner_id r),
      title = column_value (v_title vs) (title r),
      description = column_value (v_description vs) (description r),
      row_status = column_value (v_status vs) (row_status r),
      row_intake = column_value (v_intake vs) (row_intake r),
      created_at = column_value (v_created_at vs) (created_at r),
      updated_at = Some now,
      report_bucket = column_value (v_report_bucket vs) (report_bucket r),
      report_path = column_value (v_report_path vs) (report_path r),
      report_mime_type = column_value (v_report_mime_type vs) (report_mime_type r),
      report_byte_size = column_value (v_report_byte_size vs) (report_byte_size r),
      report_generated_at = column_value (v_report_generated_at vs) (report_generated_at r),
      report_error = column_value (v_report_error vs) (report_error r)\<rparr>"

definition update_project ::
  "nat \<Rightarrow> (project_row \<Rightarrow> bool) \<Rightarrow> project_values \<Rightarrow> project_row list \<Rightarrow>
     db_error + project_row list" where
  "update_project now wh vs tbl =
     (let tbl' = map (\<lambda>r. if wh r then updated_row now vs r else r) tbl
      in case List.find (\<lambda>r. constraint_error r \<noteq> None) tbl' of
           Some bad \<Rightarrow> Inl (case constraint_error bad of Some e \<Rightarrow> e | None \<Rightarrow> CheckViolation)
         | None \<Rightarrow> if distinct (map row_id tbl') then Inr tbl' else Inl UniqueViolation)"

definition delete_project :: "(project_row \<Rightarrow> bool) \<Rightarrow> project_row list \<Rightarrow> project_row list" where
  "delete_project wh tbl = filter (\<lambda>r. \<not> wh r) tbl"

text \<open>The states of the table: the empty table and every state a statement leaves behind.\<close>

inductive table_reachable :: "project_row list \<Rightarrow> bool" where
  created: "table_reachable []"
| inserted: "table_reachable tbl \<Longrightarrow> insert_project fresh now vs tbl = Inr tbl' \<Longrightarrow> table_reachable tbl'"
| updated: "table_reachable tbl \<Longrightarrow> update_project now wh vs tbl = Inr tbl' \<Longrightarrow> table_reachable tbl'"
| deleted: "table_reachable tbl \<Longrightarrow> table_reachable (delete_project wh tbl)"

text \<open>A statement that names no column.\<close>

definition no_values :: project_values where
  "no_values =
     \<lparr>v_id = Omitted, v_owner_id = Omitted, v_title = Omitted, v_description = Omitted,
      v_status = Omitted, v_intake = Omitted, v_created_at = Omitted, v_updated_at = Omitted,
      v_report_bucket = Omitted, v_report_path = Omitted, v_report_mime_type = Omitted,
      v_report_byte_size = Omitted, v_report_generated_at = Omitted, v_report_error = Omitted\<rparr>"

text \<open>The statuses that the create calls in a list of calls carry.\<close>

fun create_status :: "api_call \<Rightarrow> string option list" where
  "create_status (CreateProject payload) = [cp_status payload]"
| "create_status (CreateProjectWithDocuments payload files) = [cp_status payload]"
| "create_status c = []"

definition create_statuses :: "api_call list \<Rightarrow> string option list" where
  "create_statuses cs = concat (map create_status cs)"

text \<open>The create form filled in, and a one-row table.\<close>

definition page_create_form :: ui_state where
  "page_create_form =
     page_initial\<lparr>createTitle := '' Seat change '', createCurrentSeat := ''London'',
                  createProposedSeats := ''Paris; Geneva''\<rparr>"

definition new_project_values :: project_values where
  "new_project_values = no_values\<lparr>v_owner_id := Val 17, v_title := Val ''Seat change''\<rparr>"

definition one_project :: "project_row list" where
  "one_project = [inserted_row 1 7 new_project_values]"

definition any_row :: "project_row \<Rightarrow> bool" where
  "any_row r = True"

text \<open>A project that is created with the status \<open>complete\<close>.\<close>

definition complete_project_values :: project_values where
  "complete_project_values = new_project_values\<lparr>v_status := Val ''complete''\<rparr>"

text \<open>The six report columns of a row.\<close>

definition report_fields ::
  "project_row \<Rightarrow>
     string option \<times> string option \<times> string option \<times> bigint option \<times> nat option \<times> string option" where
  "report_fields r =
     (report_bucket r, report_path r, report_mime_type r, report_byte_size r,
      report_generated_at r, report_error r)"

text \<open>Whether a statement names none of the report columns, and whether it names no status.\<close>

definition no_report_values :: "project_values \<Rightarrow> bool" where
  "no_report_values vs =
     (v_report_bucket vs = Omitted \<and> v_report_path vs = Omitted \<and>
      v_report_mime_type vs = Omitted \<and> v_report_byte_size vs = Omitted \<and>
      v_report_generated_at vs = Omitted \<and> v_report_error vs = Omitted)"

text \<open>An update that sets the status and nothing else.\<close>

definition status_only :: "string \<Rightarrow> project_values" where
  "status_only s = no_values\<lparr>v_status := Val s\<rparr>"

text \<open>
  The relation between the report columns and the status in the words of section 3 of the
  specification, read on a row of the table: \<open>report_error\<close> is set only when the status
  is \<open>intervention\<close>; the location (bucket and path) and \<open>report_generated_at\<close> are set
  together, and only when the status is \<open>complete\<close>.
\<close>

definition report_invariant_spec :: "project_row \<Rightarrow> bool" where
  "report_invariant_spec r =
     ((report_error r \<noteq> None \<longrightarrow> row_status r = Some ''intervention'') \<and>
      ((report_bucket r \<noteq> None \<and> report_path r \<noteq> None) = (report_generated_at r \<noteq> None)) \<and>
      (report_bucket r \<noteq> None \<or> report_path r \<noteq> None \<or> report_generated_at r \<noteq> None
         \<longrightarrow> row_status r = Some ''complete''))"

text \<open>
  An update that writes a failure and a location into the report columns of every row and
  leaves the status alone, and the table it makes of \<open>one_project\<close>.
\<close>

definition stray_report_values :: project_values where
  "stray_report_values =
     no_values\<lparr>v_report_bucket := Val ''reports'', v_report_path := Val ''p1/report.docx'',
               v_report_error := Val ''timeout''\<rparr>"

definition stray_project :: "project_row list" where
  "stray_project = [updated_row 9 stray_report_values (hd one_project)]"

section \<open>Example intakes\<close>

definition intake_full :: intake where
  "intake_full =
     [''current_seat'' \<mapsto> JStr ''London'',
      ''proposed_seats'' \<mapsto> JArr [JStr '' '', JStr ''Paris''],
      ''arbitration_agreement_text'' \<mapsto> JStr ''clause 12'',
      ''institution_rules'' \<mapsto> JStr ''ICC'',
      ''governing_law'' \<mapsto> JStr ''Swiss law'']"

definition intake_blank :: intake where
  "intake_blank =
     [''current_seat'' \<mapsto> JStr ''London'',
      ''proposed_seats'' \<mapsto> JArr (map JStr ['' '', []]),
      ''arbitration_agreement_text'' \<mapsto> JStr ''clause 12'',
      ''institution_rules'' \<mapsto> JStr ''ICC'',
      ''governing_law'' \<mapsto> JStr [CHR 0x20, CHR 0x09]]"

definition intake_partial :: intake where
  "intake_partial =
     [''current_seat'' \<mapsto> JStr ''Geneva'',
      ''proposed_seats'' \<mapsto> JStr ''Paris'',
      ''institution_rules'' \<mapsto> JNull]"

text \<open>An intake that holds no string at all.\<close>

definition intake_untyped :: intake where
  "intake_untyped =
     [''current_seat'' \<mapsto> JBool True,
      ''proposed_seats'' \<mapsto> JArr [JNull],
      ''arbitration_agreement_text'' \<mapsto> JObj [],
      ''institution_rules'' \<mapsto> JNum 7,
      ''governing_law'' \<mapsto> JArr [JStr ''Swiss law'']]"

text \<open>
  Two intakes with an object that has an own key \<open>toString\<close> among the proposed seats:
  one with every required field filled in, one that lacks three required keys.
\<close>

definition intake_full_unprintable :: intake where
  "intake_full_unprintable =
     intake_full(''proposed_seats'' \<mapsto> JArr [JStr ''Paris'', JObj [(''toString'', JNull)]])"

definition intake_unprintable :: intake where
  "intake_unprintable =
     [''current_seat'' \<mapsto> JStr ''London'',
      ''proposed_seats'' \<mapsto> JArr [JObj [(''toString'', JNum 0)]]]"

section \<open>The report-generation orchestrator\<close>

text \<open>
  The backend that runs report generation is not among the sources; only the table it
  writes and the client that calls it are. The definitions of this section follow
  sections 3, 4.2, 4.4 and 5 of the specification.
\<close>

text \<open>
  Modelled from the spec: the status of a project as the backend orchestrator (not in the
  sources) holds it; section 4.2 names the three states.
\<close>

datatype proj_status = Working | Complete | Intervention

text \<open>
  Modelled from the spec: the Project of section 3 as the backend orchestrator (not in the
  sources) holds it (status, intake, report metadata), with
  the per-project mutual-exclusion token of section 5 (the attempt that holds it) and the
  number of generation attempts made.
\<close>

record orch_project =
  o_status :: proj_status
  o_intake :: intake
  o_report_location :: "string option"
  o_report_generated_at :: "nat option"
  o_report_error :: "string option"
  o_token :: "nat option"
  o_attempts :: nat

text \<open>
  Modelled from the spec: the state of the backend orchestrator (not in the sources), the
  projects by id, the generations
  that are running in the background (project and attempt), and the executions of report
  production started so far. Requests are handled one after the other (section 5: status
  and intake mutations are synchronous); a generation runs between the request that starts
  it and the event that finishes it.
\<close>

record orch_state =
  o_projects :: "string \<rightharpoonup> orch_project"
  o_running :: "(string \<times> nat) list"
  o_started :: "(string \<times> nat) list"

text \<open>
  Modelled from the spec: the backend orchestrator (not in the sources) before any project
  is created.
\<close>

definition orch_init :: orch_state where
  "orch_init = \<lparr>o_projects = Map.empty, o_running = [], o_started = []\<rparr>"

text \<open>
  Modelled from the spec: \<open>missing_fields\<close> of section 4.1 as the backend (not in the
  sources) computes it, taken to agree with the client's \<open>computeMissingFromIntake\<close>.
\<close>

definition missing_fields :: "intake \<Rightarrow> string list" where
  "missing_fields i = (case computeMissingFromIntake (Some i) of Inr ms \<Rightarrow> ms | Inl e \<Rightarrow> [])"

text \<open>
  Modelled from the spec: project creation in the backend (not in the sources; section 3),
  status \<open>working\<close>, the intake
  supplied, no report metadata.
\<close>

definition create_project :: "string \<Rightarrow> intake \<Rightarrow> orch_state \<Rightarrow> orch_state" where
  "create_project pid i s =
     (case o_projects s pid of
        Some p \<Rightarrow> s
      | None \<Rightarrow>
          s\<lparr>o_projects := (o_projects s)(pid \<mapsto>
               \<lparr>o_status = Working, o_intake = i, o_report_location = None,
                o_report_generated_at = None, o_report_error = None, o_token = None,
                o_attempts = 0\<rparr>)\<rparr>)"

text \<open>
  Modelled from the spec: an intake update in the backend (not in the sources; section
  4.2). \<open>intervention \<rightarrow> working\<close>
  when the update changes the missing-fields set, \<open>complete \<rightarrow> working\<close> on any edit
  after completion; no side effect on the report metadata is stated.
\<close>

definition edit_intake :: "string \<Rightarrow> intake \<Rightarrow> orch_state \<Rightarrow> orch_state" where
  "edit_intake pid i s =
     (case o_projects s pid of
        None \<Rightarrow> s
      | Some p \<Rightarrow>
          s\<lparr>o_projects := (o_projects s)(pid \<mapsto>
               p\<lparr>o_intake := i,
                 o_status :=
                   (if o_status p = Intervention \<and> missing_fields i \<noteq> missing_fields (o_intake p)
                    then Working
                    else if o_status p = Complete then Working
                    else o_status p)\<rparr>)\<rparr>)"

text \<open>
  Modelled from the spec: what the backend's \<open>regenerate\<close> (not in the sources) answers:
  the attempt it started, the attempt already running, the fields still missing, or that
  there is no such project.
\<close>

datatype regen_result = Started nat | AlreadyRunning nat | StillMissing "string list" | NoProject

text \<open>
  Modelled from the spec: \<open>regenerate\<close> of the backend orchestrator (not in the sources;
  sections 4.4 and 5). While an attempt holds the
  token the request is a no-op that returns the running attempt. With fields missing no
  generation is started: the request fails with the missing fields, and the attempt ends in
  \<open>intervention\<close> with \<open>report_error\<close> set (section 4.2, first transition, and section 8;
  section 7 (a) would leave the status as it is). Otherwise the project goes to \<open>working\<close>,
  the attempt takes the token and the generation starts in the background; the report
  metadata is left as it is until the attempt ends.
\<close>

definition regenerate :: "string \<Rightarrow> orch_state \<Rightarrow> regen_result \<times> orch_state" where
  "regenerate pid s =
     (case o_projects s pid of
        None \<Rightarrow> (NoProject, s)
      | Some p \<Rightarrow>
          (case o_token p of
             Some a \<Rightarrow> (AlreadyRunning a, s)
           | None \<Rightarrow>
               (let ms = missing_fields (o_intake p)
                in if ms \<noteq> [] then
                     (StillMissing ms,
                      s\<lparr>o_projects := (o_projects s)(pid \<mapsto>
                           p\<lparr>o_status := Intervention,
                             o_report_error := Some (''Missing: '' @ join_with '', '' ms),
                             o_attempts := Suc (o_attempts p)\<rparr>)\<rparr>)
                   else
                     (let a = Suc (o_attempts p)
                      in (Started a,
                          s\<lparr>o_projects := (o_projects s)(pid \<mapsto>
                               p\<lparr>o_status := Working, o_token := Some a, o_attempts := a\<rparr>),
                            o_running := o_running s @ [(pid, a)],
                            o_started := o_started s @ [(pid, a)]\<rparr>)))))"

text \<open>
  Modelled from the spec: how a generation of the backend (not in the sources) ends: it
  produced a report at a location and time, or it failed with an error (a timeout is one).
\<close>

datatype outcome = Succeeded string nat | Failed string

text \<open>
  Modelled from the spec: the side effects of the end of a generation in the backend (not
  in the sources; section 4.2). Success is \<open>working \<rightarrow> complete\<close>: set
  \<open>report_location\<close> and \<open>report_generated_at\<close>, clear \<open>report_error\<close>. Failure is
  \<open>working \<rightarrow> intervention\<close>: set \<open>report_error\<close>. The token is given back.
\<close>

fun apply_outcome :: "outcome \<Rightarrow> orch_project \<Rightarrow> orch_project" where
  "apply_outcome (Succeeded loc t) p =
     p\<lparr>o_status := Complete, o_report_location := Some loc, o_report_generated_at := Some t,
       o_report_error := None, o_token := None\<rparr>"
| "apply_outcome (Failed msg) p =
     p\<lparr>o_status := Intervention, o_report_error := Some msg, o_token := None\<rparr>"

text \<open>
  Modelled from the spec: the end of a running generation in the backend (not in the
  sources; section 4.4). The generation stops running, and its result counts only when the
  attempt still holds the token.
\<close>

definition finish_generation :: "string \<Rightarrow> nat \<Rightarrow> outcome \<Rightarrow> orch_state \<Rightarrow> orch_state" where
  "finish_generation pid a out s =
     (if (pid, a) \<notin> set (o_running s) then s
      else
        (let s1 = s\<lparr>o_running := filter (\<lambda>j. j \<noteq> (pid, a)) (o_running s)\<rparr>
         in case o_projects s pid of
              None \<Rightarrow> s1
            | Some p \<Rightarrow>
                if o_token p \<noteq> Some a then s1
                else s1\<lparr>o_projects := (o_projects s)(pid \<mapsto> apply_outcome out p)\<rparr>))"

text \<open>
  Modelled from the spec: the events that the backend orchestrator (not in the sources)
  handles.
\<close>

datatype orch_event =
    Create string intake
  | EditIntake string intake
  | Regenerate string
  | Finish string nat outcome

text \<open>
  Modelled from the spec: the backend orchestrator (not in the sources) handling one event.
\<close>

fun orch_step :: "orch_event \<Rightarrow> orch_state \<Rightarrow> orch_state" where
  "orch_step (Create pid i) s = create_project pid i s"
| "orch_step (EditIntake pid i) s = edit_intake pid i s"
| "orch_step (Regenerate pid) s = snd (regenerate pid s)"
| "orch_step (Finish pid a out) s = finish_generation pid a out s"

text \<open>
  Modelled from the spec: the states the backend orchestrator (not in the sources) reaches.
\<close>

inductive orch_reachable :: "orch_state \<Rightarrow> bool" where
  start: "orch_reachable orch_init"
| step: "orch_reachable s \<Longrightarrow> orch_reachable (orch_step e s)"

text \<open>The generations of a project that are running in a state.\<close>

definition running_for :: "string \<Rightarrow> orch_state \<Rightarrow> (string \<times> nat) list" where
  "running_for pid s = filter (\<lambda>j. fst j = pid) (o_running s)"

text \<open>A project with a complete intake, just created.\<close>

definition state_ready :: orch_state where
  "state_ready = orch_step (Create ''p1'' intake_full) orch_init"

text \<open>
  The state invariant used in the proofs: the running generations are those that hold a
  token, one per project at most.
\<close>

definition orch_inv :: "orch_state \<Rightarrow> bool" where
  "orch_inv s =
     (distinct (map fst (o_running s)) \<and>
      (\<forall>pid a. (pid, a) \<in> set (o_running s) \<longleftrightarrow>
                (\<exists>p. o_projects s pid = Some p \<and> o_token p = Some a)))"

section \<open>Properties of the intake model\<close>

subsection \<open>Trimming\<close>

lemma dropWhile_all_iff: "(\<forall>x\<in>set (dropWhile P xs). P x) \<longleftrightarrow> (\<forall>x\<in>set xs. P x)"
proof
  assume all: "\<forall>x\<in>set (dropWhile P xs). P x"
  have "dropWhile P xs = []"
  proof (rule ccontr)
    assume ne: "dropWhile P xs \<noteq> []"
    then have "\<not> P (hd (dropWhile P xs))" by (rule hd_dropWhile)
    moreover from ne have "hd (dropWhile P xs) \<in> set (dropWhile P xs)" by simp
    ultimately show False using all by blast
  qed
  then show "\<forall>x\<in>set xs. P x" by (simp add: dropWhile_eq_Nil_conv)
next
  assume "\<forall>x\<in>set xs. P x"
  then show "\<forall>x\<in>set (dropWhile P xs). P x" by (blast dest: set_dropWhileD)
qed

lemma trim_Nil [simp]: "trim [] = []"
  by (simp add: trim_def)

lemma trim_empty_iff: "trim s = [] \<longleftrightarrow> list_all js_whitespace s"
  unfolding trim_def
  by (simp add: dropWhile_eq_Nil_conv dropWhile_all_iff list_all_iff)

lemma trim_hd: "trim s \<noteq> [] \<Longrightarrow> \<not> js_whitespace (hd (trim s))"
proof -
  assume ne: "trim s \<noteq> []"
  let ?t = "dropWhile js_whitespace s"
  let ?u = "dropWhile js_whitespace (rev ?t)"
  from ne have une: "?u \<noteq> []" by (simp add: trim_def)
  have tne: "?t \<noteq> []"
  proof
    assume e: "?t = []"
    have "?u = []" unfolding e by simp
    with une show False by contradiction
  qed
  have "hd (trim s) = last ?u" using une by (simp add: trim_def hd_rev)
  also have "\<dots> = last (rev ?t)"
  proof -
    have "hd ?u \<in> set ?u" using une by (rule hd_in_set)
    then have "hd ?u \<in> set (rev ?t)" by (rule set_dropWhileD)
    moreover have "\<not> js_whitespace (hd ?u)" using une by (rule hd_dropWhile)
    ultimately show ?thesis by (rule dropWhile_last)
  qed
  also have "\<dots> = hd ?t" using tne by (simp add: last_rev)
  finally show ?thesis using hd_dropWhile [OF tne] by simp
qed

lemma trim_last: "trim s \<noteq> [] \<Longrightarrow> \<not> js_whitespace (last (trim s))"
proof -
  assume ne: "trim s \<noteq> []"
  let ?u = "dropWhile js_whitespace (rev (dropWhile js_whitespace s))"
  from ne have une: "?u \<noteq> []" by (simp add: trim_def)
  have "last (trim s) = hd ?u" using une by (simp add: trim_def last_rev)
  then show ?thesis using hd_dropWhile [OF une] by simp
qed

lemma trim_fixed:
  assumes "s \<noteq> []" "\<not> js_whitespace (hd s)" "\<not> js_whitespace (last s)"
  shows "trim s = s"
proof -
  from assms have a: "dropWhile js_whitespace s = s" by (cases s) auto
  from assms have "rev s \<noteq> []" "\<not> js_whitespace (hd (rev s))" by (simp_all add: hd_rev)
  then have "dropWhile js_whitespace (rev s) = rev s" by (cases "rev s") auto
  with a show ?thesis by (simp add: trim_def)
qed

lemma trim_idem: "trim (trim s) = trim s"
proof (cases "trim s = []")
  case True
  then have "trim (trim s) = trim []" by simp
  also have "\<dots> = []" by (simp add: trim_def)
  finally show ?thesis using True by simp
next
  case False
  then show ?thesis by (intro trim_fixed trim_hd trim_last)
qed

lemma set_trim_subset: "set (trim s) \<subseteq> set s"
  unfolding trim_def by (auto dest!: set_dropWhileD)

subsection \<open>Conversion to a string\<close>

lemma sequence_err_map_Inr_iff:
  "(\<exists>vs. sequence_err (map f xs) = Inr vs) \<longleftrightarrow> (\<forall>x\<in>set xs. \<exists>v. f x = Inr v)"
proof (induction xs)
  case Nil
  show ?case by simp
next
  case (Cons x xs)
  show ?case
  proof (cases "f x")
    case (Inl e)
    then show ?thesis by auto
  next
    case (Inr v)
    show ?thesis
    proof (cases "sequence_err (map f xs)")
      case (Inl e)
      with Cons Inr show ?thesis by auto
    next
      case (Inr vs)
      with Cons \<open>f x = Inr v\<close> show ?thesis by auto
    qed
  qed
qed

lemma String_js_printable: "(\<exists>s. String_js v = Inr s) \<longleftrightarrow> printable v"
proof (induction v rule: String_js.induct)
  case (6 xs)
  let ?f = "\<lambda>x. if x = JNull \<or> x = JUndefined then Inr [] else String_js x"
  have "(\<exists>s. String_js (JArr xs) = Inr s) \<longleftrightarrow> (\<exists>ss. sequence_err (map ?f xs) = Inr ss)"
    by (cases "sequence_err (map ?f xs)") simp_all
  also have "\<dots> \<longleftrightarrow> (\<forall>x\<in>set xs. \<exists>s. ?f x = Inr s)"
    by (rule sequence_err_map_Inr_iff)
  also have "\<dots> \<longleftrightarrow> (\<forall>x\<in>set xs. x = JNull \<or> x = JUndefined \<or> printable x)"
    using 6 by auto
  finally show ?case by (simp add: list_all_iff)
qed simp_all

lemma String_js_printed: "printable v \<Longrightarrow> String_js v = Inr (printed v)"
  using String_js_printable [of v] by (auto simp: printed_def)

lemma String_js_unprintable: "\<not> printable v \<Longrightarrow> \<exists>e. String_js v = Inl e"
  using String_js_printable [of v] by (cases "String_js v") auto

lemma printed_JStr [simp]: "printed (JStr s) = s"
  by (simp add: printed_def)

lemma filter_err_printable:
  "list_all printable xs \<Longrightarrow>
   filter_err String_trim_truthy xs = Inr (filter (\<lambda>x. trim (printed x) \<noteq> []) xs)"
  by (induction xs) (simp_all add: String_trim_truthy_def String_js_printed)

lemma filter_err_returns:
  "filter_err String_trim_truthy xs = Inr ys \<Longrightarrow> list_all printable xs"
proof (induction xs arbitrary: ys)
  case Nil
  show ?case by simp
next
  case (Cons x xs)
  from Cons.prems obtain b where b: "String_trim_truthy x = Inr b"
    by (cases "String_trim_truthy x") simp_all
  then have px: "printable x"
    using String_js_printable [of x]
    by (cases "String_js x") (simp_all add: String_trim_truthy_def)
  from Cons.prems b obtain zs where "filter_err String_trim_truthy xs = Inr zs"
    by (cases "filter_err String_trim_truthy xs") simp_all
  with Cons.IH px show ?case by simp
qed

lemma String_trim_empty_printable:
  "printable v \<Longrightarrow> String_trim_empty v = Inr (trim (printed v) = [])"
  by (simp add: String_trim_empty_def String_js_printed)

lemma String_trim_empty_returns: "String_trim_empty v = Inr b \<Longrightarrow> printable v"
  using String_js_printable [of v]
  by (cases "String_js v") (simp_all add: String_trim_empty_def)

subsection \<open>The missing-fields computation\<close>

lemma computeMissing_printable:
  assumes "intake_printable (intake_or_empty intake)"
  shows "computeMissingFromIntake intake = Inr (missing_list (intake_or_empty intake))"
proof -
  let ?i = "intake_or_empty intake"
  from assms have t:
    "printable (js_or (get_prop ?i ''current_seat'') (JStr []))"
    "printable (js_or (get_prop ?i ''arbitration_agreement_text'') (JStr []))"
    "printable (js_or (get_prop ?i ''institution_rules'') (JStr []))"
    "printable (js_or (get_prop ?i ''governing_law'') (JStr []))"
    by (simp_all add: intake_printable_def text_fields_def)
  have seats:
    "(if \<not> isArray (get_prop ?i ''proposed_seats'') then Inr True
      else (case array_filter String_trim_truthy (get_prop ?i ''proposed_seats'') of
              Inl e \<Rightarrow> Inl e
            | Inr kept \<Rightarrow> Inr (length kept = 0))) = Inr (seats_missing ?i)"
  proof (cases "get_prop ?i ''proposed_seats''")
    case (JArr xs)
    with assms have "list_all printable xs" by (simp add: intake_printable_def)
    with JArr show ?thesis
      by (simp add: isArray_def array_filter_def seats_missing_def filter_err_printable)
  qed (simp_all add: isArray_def seats_missing_def)
  show ?thesis
    unfolding computeMissingFromIntake_def Let_def
    using seats t
    by (simp add: String_trim_empty_printable missing_list_def text_missing_def)
qed

lemma computeMissing_returns:
  assumes "computeMissingFromIntake intake = Inr ms"
  shows "intake_printable (intake_or_empty intake)"
proof -
  let ?i = "intake_or_empty intake"
  from assms obtain b1 where b1:
    "String_trim_empty (js_or (get_prop ?i ''current_seat'') (JStr [])) = Inr b1"
    unfolding computeMissingFromIntake_def Let_def
    by (cases "String_trim_empty (js_or (get_prop ?i ''current_seat'') (JStr []))") simp_all
  let ?seats = "(if \<not> isArray (get_prop ?i ''proposed_seats'') then Inr True
      else (case array_filter String_trim_truthy (get_prop ?i ''proposed_seats'') of
              Inl e \<Rightarrow> Inl e
            | Inr kept \<Rightarrow> Inr (length kept = 0)))"
  from assms b1 obtain b2 where b2: "?seats = Inr b2"
    unfolding computeMissingFromIntake_def Let_def
    by (cases ?seats) simp_all
  from assms b1 b2 obtain b3 where b3:
    "String_trim_empty (js_or (get_prop ?i ''arbitration_agreement_text'') (JStr [])) = Inr b3"
    unfolding computeMissingFromIntake_def Let_def
    by (cases "String_trim_empty (js_or (get_prop ?i ''arbitration_agreement_text'') (JStr []))")
       simp_all
  from assms b1 b2 b3 obtain b4 where b4:
    "String_trim_empty (js_or (get_prop ?i ''institution_rules'') (JStr [])) = Inr b4"
    unfolding computeMissingFromIntake_def Let_def
    by (cases "String_trim_empty (js_or (get_prop ?i ''institution_rules'') (JStr []))") simp_all
  from assms b1 b2 b3 b4 obtain b5 where b5:
    "String_trim_empty (js_or (get_prop ?i ''governing_law'') (JStr [])) = Inr b5"
    unfolding computeMissingFromIntake_def Let_def
    by (cases "String_trim_empty (js_or (get_prop ?i ''governing_law'') (JStr []))") simp_all
  have seats: "case get_prop ?i ''proposed_seats'' of JArr xs \<Rightarrow> list_all printable xs | _ \<Rightarrow> True"
  proof (cases "get_prop ?i ''proposed_seats''")
    case (JArr xs)
    with b2 obtain kept where "filter_err String_trim_truthy xs = Inr kept"
      by (cases "filter_err String_trim_truthy xs") (simp_all add: isArray_def array_filter_def)
    then have "list_all printable xs" by (rule filter_err_returns)
    with JArr show ?thesis by simp
  qed simp_all
  from b1 b3 b4 b5 seats show ?thesis
    by (simp add: intake_printable_def text_fields_def String_trim_empty_returns)
qed

lemma computeMissing_result:
  "computeMissingFromIntake intake = Inr ms \<Longrightarrow> ms = missing_list (intake_or_empty intake)"
  using computeMissing_printable [OF computeMissing_returns] by fastforce

lemma computeMissing_throws:
  "\<not> intake_printable (intake_or_empty intake) \<Longrightarrow> \<exists>e. computeMissingFromIntake intake = Inl e"
  using computeMissing_returns [of intake] by (cases "computeMissingFromIntake intake") auto

lemma missing_list_mem:
  "k \<in> set (missing_list i) \<longleftrightarrow>
     (k \<in> set text_fields \<and> text_missing i k) \<or> (k = ''proposed_seats'' \<and> seats_missing i)"
  by (auto simp: missing_list_def text_fields_def)

lemma missing_list_filter:
  "missing_list i = filter (\<lambda>f. f \<in> set (missing_list i)) required_fields"
  by (simp add: missing_list_def required_fields_def)

lemma text_typed_printable: "text_typed v \<Longrightarrow> printable (js_or v (JStr []))"
  by (cases v) (simp_all add: text_typed_def js_or_def)

lemma text_typed_missing:
  "text_typed v \<Longrightarrow> trim (printed (js_or v (JStr []))) = [] \<longleftrightarrow> \<not> nonempty_string v"
  by (cases v) (auto simp: text_typed_def js_or_def nonempty_string_def)

lemma is_string_printable: "list_all is_string xs \<Longrightarrow> list_all printable xs"
proof (induction xs)
  case Nil
  show ?case by simp
next
  case (Cons x xs)
  then show ?case by (cases x) (simp_all add: is_string_def)
qed

lemma is_string_kept:
  "list_all is_string xs \<Longrightarrow>
   filter (\<lambda>x. trim (printed x) \<noteq> []) xs = [] \<longleftrightarrow> \<not> list_ex nonempty_string xs"
proof (induction xs)
  case Nil
  show ?case by simp
next
  case (Cons x xs)
  then show ?case by (cases x) (simp_all add: is_string_def nonempty_string_def)
qed

lemma intake_typed_printable: "intake_typed i \<Longrightarrow> intake_printable i"
proof -
  assume t: "intake_typed i"
  then have "list_all (\<lambda>k. printable (js_or (get_prop i k) (JStr []))) text_fields"
    by (simp add: intake_typed_def text_fields_def text_typed_printable)
  moreover have "case get_prop i ''proposed_seats'' of JArr xs \<Rightarrow> list_all printable xs | _ \<Rightarrow> True"
    using t by (cases "get_prop i ''proposed_seats''")
      (simp_all add: intake_typed_def seats_typed_def is_string_printable)
  ultimately show ?thesis by (simp add: intake_printable_def)
qed

lemma typed_text_missing_iff:
  "intake_typed i \<Longrightarrow> k \<in> set text_fields \<Longrightarrow> text_missing i k \<longleftrightarrow> \<not> text_present i k"
  by (simp add: intake_typed_def list_all_iff text_missing_def text_present_def text_typed_missing)

lemma typed_seats_missing_iff: "intake_typed i \<Longrightarrow> seats_missing i \<longleftrightarrow> \<not> seats_present i"
  by (cases "get_prop i ''proposed_seats''")
     (simp_all add: intake_typed_def seats_typed_def seats_missing_def seats_present_def
        is_string_kept)

lemma typed_missing_list_empty_iff:
  "intake_typed i \<Longrightarrow> missing_list i = [] \<longleftrightarrow> all_required_present i"
  by (simp add: missing_list_def all_required_present_def typed_text_missing_iff
      typed_seats_missing_iff text_fields_def)

lemmas eval_intake =
  computeMissingFromIntake_def get_prop_def js_or_def trim_def js_whitespace_def isArray_def
  array_filter_def intake_or_empty_def String_trim_empty_def String_trim_truthy_def

text \<open>
  C1, as the claim states it, fails. An intake that holds no string at all (\<open>true\<close>, an
  array with \<open>null\<close>, an empty object, a number, an array) is reported complete, though
  none of its fields is a non-empty string. And an intake with all five fields present
  throws, instead of returning the empty list, when a further element of
  \<open>proposed_seats\<close> is an object with an own key \<open>toString\<close>.
\<close>

lemma String_js_seven: "String_js (JNum 7) = Inr ''7''"
  by code_simp

theorem missing_fields_untyped_intake:
  "computeMissingFromIntake (Some intake_untyped) = Inr [] \<and>
   \<not> all_required_present intake_untyped \<and>
   all_required_present intake_full_unprintable \<and>
   computeMissingFromIntake (Some intake_full_unprintable) = Inl TypeError"
  by (simp add: eval_intake intake_untyped_def intake_full_unprintable_def intake_full_def
      all_required_present_def text_present_def seats_present_def nonempty_string_def
      String_js_seven del: String_js.simps(4))

text \<open>
  C1, amended. For every intake typed as the data model has it (each text field a string,
  or absent, \<open>null\<close>, \<open>false\<close> or \<open>0\<close>; \<open>proposed_seats\<close>, when an array, of strings
  only), \<open>computeMissingFromIntake\<close> returns a list, and that list is empty exactly when
  all five required fields are present: the four text fields strings that are non-empty
  after trimming, and \<open>proposed_seats\<close> an array with at least one string that is
  non-empty after trimming. A text field whose string is all white space is reported
  missing, and so is \<open>proposed_seats\<close> when every element is all white space.
\<close>

theorem missing_fields_empty_iff_present:
  assumes "intake_typed (intake_or_empty intake)"
  shows
    "(\<exists>ms. computeMissingFromIntake intake = Inr ms) \<and>
     (computeMissingFromIntake intake = Inr [] \<longleftrightarrow> all_required_present (intake_or_empty intake)) \<and>
     (k \<in> set text_fields \<and> intake_or_empty intake k = Some (JStr s) \<and> list_all js_whitespace s
        \<longrightarrow> (\<exists>ms. computeMissingFromIntake intake = Inr ms \<and> k \<in> set ms)) \<and>
     (intake_or_empty intake ''proposed_seats'' = Some (JArr (map JStr ss)) \<and>
        list_all (list_all js_whitespace) ss
        \<longrightarrow> (\<exists>ms. computeMissingFromIntake intake = Inr ms \<and> ''proposed_seats'' \<in> set ms))"
proof (intro conjI impI)
  let ?i = "intake_or_empty intake"
  have r: "computeMissingFromIntake intake = Inr (missing_list ?i)"
    using assms by (intro computeMissing_printable intake_typed_printable)
  show "\<exists>ms. computeMissingFromIntake intake = Inr ms"
    using r by simp
  show "computeMissingFromIntake intake = Inr [] \<longleftrightarrow> all_required_present ?i"
    using assms by (simp add: r typed_missing_list_empty_iff)
  {
    assume a: "k \<in> set text_fields \<and> ?i k = Some (JStr s) \<and> list_all js_whitespace s"
    then have "trim s = []" by (simp add: trim_empty_iff)
    with a have "text_missing ?i k"
      by (cases "s = []") (simp_all add: text_missing_def get_prop_def js_or_def)
    with a have "k \<in> set (missing_list ?i)"
      by (simp add: missing_list_mem)
    then show "\<exists>ms. computeMissingFromIntake intake = Inr ms \<and> k \<in> set ms"
      by (simp add: r)
  }
  {
    assume a: "?i ''proposed_seats'' = Some (JArr (map JStr ss)) \<and>
        list_all (list_all js_whitespace) ss"
    then have "\<forall>s\<in>set ss. trim s = []" by (simp add: trim_empty_iff list_all_iff)
    with a have "seats_missing ?i"
      by (simp add: seats_missing_def get_prop_def filter_empty_conv)
    then have "''proposed_seats'' \<in> set (missing_list ?i)"
      by (simp add: missing_list_mem)
    then show "\<exists>ms. computeMissingFromIntake intake = Inr ms \<and> ''proposed_seats'' \<in> set ms"
      by (simp add: r)
  }
qed

lemmas eval_typed =
  intake_typed_def text_fields_def text_typed_def seats_typed_def is_string_def get_prop_def
  intake_or_empty_def

theorem missing_fields_empty_iff_present_witness:
  "intake_typed intake_full \<and>
   all_required_present intake_full \<and>
   computeMissingFromIntake (Some intake_full) = Inr [] \<and>
   intake_typed intake_blank \<and>
   ''governing_law'' \<in> set text_fields \<and>
   intake_blank ''governing_law'' = Some (JStr [CHR 0x20, CHR 0x09]) \<and>
   list_all js_whitespace [CHR 0x20, CHR 0x09] \<and>
   intake_blank ''proposed_seats'' = Some (JArr (map JStr ['' '', []])) \<and>
   list_all (list_all js_whitespace) ['' '', []] \<and>
   (\<exists>ms. computeMissingFromIntake (Some intake_blank) = Inr ms \<and> ''governing_law'' \<in> set ms) \<and>
   (\<exists>ms. computeMissingFromIntake (Some intake_blank) = Inr ms \<and> ''proposed_seats'' \<in> set ms)"
proof -
  have t1: "intake_typed (intake_or_empty (Some intake_full))"
    by (simp add: eval_typed intake_full_def)
  have t2: "intake_typed (intake_or_empty (Some intake_blank))"
    by (simp add: eval_typed intake_blank_def)
  have full: "all_required_present intake_full"
    by (simp add: all_required_present_def text_present_def seats_present_def intake_full_def
        get_prop_def nonempty_string_def trim_def js_whitespace_def)
  have h1: "''governing_law'' \<in> set text_fields \<and>
      intake_or_empty (Some intake_blank) ''governing_law'' = Some (JStr [CHR 0x20, CHR 0x09]) \<and>
      list_all js_whitespace [CHR 0x20, CHR 0x09]"
    by (simp add: text_fields_def intake_blank_def intake_or_empty_def js_whitespace_def)
  have h2: "intake_or_empty (Some intake_blank) ''proposed_seats'' = Some (JArr (map JStr ['' '', []])) \<and>
      list_all (list_all js_whitespace) ['' '', []]"
    by (simp add: intake_blank_def intake_or_empty_def js_whitespace_def)
  from full missing_fields_empty_iff_present [OF t1]
  have r0: "computeMissingFromIntake (Some intake_full) = Inr []"
    by (simp add: intake_or_empty_def)
  from h1 h2
    missing_fields_empty_iff_present
      [OF t2, of "''governing_law''" "[CHR 0x20, CHR 0x09]" "['' '', []]"]
  have r1: "(\<exists>ms. computeMissingFromIntake (Some intake_blank) = Inr ms \<and> ''governing_law'' \<in> set ms) \<and>
      (\<exists>ms. computeMissingFromIntake (Some intake_blank) = Inr ms \<and> ''proposed_seats'' \<in> set ms)"
    by blast
  from t1 t2 full r0 h1 h2 r1 show ?thesis by (simp add: intake_or_empty_def)
qed

text \<open>
  C2. Every list that \<open>computeMissingFromIntake\<close> returns lists the missing fields in the
  order of the required fields (current_seat, proposed_seats, arbitration_agreement_text,
  institution_rules, governing_law): it is the required-field list restricted to the
  missing ones. Hence two intakes with the same set of missing fields give the same list.
  A list is returned for every intake on which no conversion to a string throws.
\<close>

theorem missing_fields_order:
  "(computeMissingFromIntake a = Inr ms \<longrightarrow> ms = filter (\<lambda>f. f \<in> set ms) required_fields) \<and>
   (computeMissingFromIntake a = Inr ma \<and> computeMissingFromIntake b = Inr mb \<and> set ma = set mb
      \<longrightarrow> ma = mb) \<and>
   (intake_printable (intake_or_empty a) \<longrightarrow>
      (\<exists>ms. computeMissingFromIntake a = Inr ms \<and> ms = filter (\<lambda>f. f \<in> set ms) required_fields))"
proof (intro conjI impI)
  assume "computeMissingFromIntake a = Inr ms"
  then have "ms = missing_list (intake_or_empty a)" by (rule computeMissing_result)
  then show "ms = filter (\<lambda>f. f \<in> set ms) required_fields"
    using missing_list_filter [of "intake_or_empty a"] by simp
next
  assume h: "computeMissingFromIntake a = Inr ma \<and> computeMissingFromIntake b = Inr mb \<and> set ma = set mb"
  then have ma: "ma = missing_list (intake_or_empty a)" and mb: "mb = missing_list (intake_or_empty b)"
    by (simp_all add: computeMissing_result)
  have "ma = filter (\<lambda>f. f \<in> set ma) required_fields"
    unfolding ma by (rule missing_list_filter)
  also have "\<dots> = filter (\<lambda>f. f \<in> set mb) required_fields" using h by simp
  also have "\<dots> = mb" unfolding mb by (rule missing_list_filter [symmetric])
  finally show "ma = mb" .
next
  assume "intake_printable (intake_or_empty a)"
  then have "computeMissingFromIntake a = Inr (missing_list (intake_or_empty a))"
    by (rule computeMissing_printable)
  then show "\<exists>ms. computeMissingFromIntake a = Inr ms \<and> ms = filter (\<lambda>f. f \<in> set ms) required_fields"
    using missing_list_filter [of "intake_or_empty a"] by simp
qed

theorem missing_fields_order_witness:
  "computeMissingFromIntake (Some intake_blank) = Inr [''proposed_seats'', ''governing_law''] \<and>
   computeMissingFromIntake (Some (intake_full(''governing_law'' := None, ''proposed_seats'' \<mapsto> JNum 3)))
     = Inr [''proposed_seats'', ''governing_law''] \<and>
   set [''proposed_seats'', ''governing_law''] = set [''proposed_seats'', ''governing_law''] \<and>
   intake_printable intake_blank \<and>
   [''proposed_seats'', ''governing_law''] =
     filter (\<lambda>f. f \<in> set [''proposed_seats'', ''governing_law'']) required_fields"
proof -
  have a: "computeMissingFromIntake (Some intake_blank) = Inr [''proposed_seats'', ''governing_law'']"
    by (simp add: eval_intake intake_blank_def)
  have "\<exists>mb. computeMissingFromIntake
          (Some (intake_full(''governing_law'' := None, ''proposed_seats'' \<mapsto> JNum 3))) = Inr mb \<and>
        set [''proposed_seats'', ''governing_law''] = set mb"
    by (simp add: eval_intake intake_full_def)
  then obtain mb where b: "computeMissingFromIntake
          (Some (intake_full(''governing_law'' := None, ''proposed_seats'' \<mapsto> JNum 3))) = Inr mb"
    and s: "set [''proposed_seats'', ''governing_law''] = set mb" by blast
  note th = missing_fields_order
      [of "Some intake_blank" "[''proposed_seats'', ''governing_law'']"
          "[''proposed_seats'', ''governing_law'']"
          "Some (intake_full(''governing_law'' := None, ''proposed_seats'' \<mapsto> JNum 3))" mb]
  from a b s th have e: "[''proposed_seats'', ''governing_law''] = mb" by blast
  from a th have o: "[''proposed_seats'', ''governing_law''] =
     filter (\<lambda>f. f \<in> set [''proposed_seats'', ''governing_law'']) required_fields" by blast
  have p: "intake_printable intake_blank"
    by (simp add: intake_printable_def text_fields_def intake_blank_def get_prop_def js_or_def)
  from a b e o p show ?thesis by simp
qed

text \<open>
  C9, as the claim states it, fails: on an intake that lacks three required keys and has,
  among the proposed seats, an object with an own key \<open>toString\<close>,
  \<open>computeMissingFromIntake\<close> returns no list; it throws a \<open>TypeError\<close>.
\<close>

theorem missing_fields_throws:
  "intake_unprintable ''arbitration_agreement_text'' = None \<and>
   intake_unprintable ''institution_rules'' = None \<and>
   intake_unprintable ''governing_law'' = None \<and>
   computeMissingFromIntake (Some intake_unprintable) = Inl TypeError"
  by (simp add: eval_intake intake_unprintable_def)

text \<open>
  C9, amended. \<open>computeMissingFromIntake\<close> returns a list, never an error, on the
  undefined intake and on every intake in which the values it converts to a string (the
  truthy text fields and the elements of an array \<open>proposed_seats\<close>) are not, and do not
  hold in arrays, an object with an own key \<open>toString\<close>. On the undefined and on the empty
  intake the list is all five required fields; in general it holds required fields only,
  holds every required field whose key is absent, and holds \<open>proposed_seats\<close> whenever
  that value is not an array.
\<close>

theorem missing_fields_total:
  "computeMissingFromIntake None = Inr required_fields \<and>
   computeMissingFromIntake (Some Map.empty) = Inr required_fields \<and>
   (intake_printable (intake_or_empty intake) \<longrightarrow>
     (\<exists>ms. computeMissingFromIntake intake = Inr ms \<and> set ms \<subseteq> set required_fields \<and>
        (\<forall>k\<in>set required_fields. intake_or_empty intake k = None \<longrightarrow> k \<in> set ms) \<and>
        (\<not> isArray (get_prop (intake_or_empty intake) ''proposed_seats'') \<longrightarrow>
           ''proposed_seats'' \<in> set ms)))"
proof (intro conjI impI)
  have p: "intake_printable Map.empty"
    by (simp add: intake_printable_def text_fields_def get_prop_def js_or_def)
  have e: "missing_list Map.empty = required_fields"
    by (simp add: missing_list_def required_fields_def text_missing_def seats_missing_def
        get_prop_def js_or_def)
  show "computeMissingFromIntake None = Inr required_fields"
    using computeMissing_printable [of None] p e by (simp add: intake_or_empty_def)
  show "computeMissingFromIntake (Some Map.empty) = Inr required_fields"
    using computeMissing_printable [of "Some Map.empty"] p e by (simp add: intake_or_empty_def)
  let ?i = "intake_or_empty intake"
  assume "intake_printable ?i"
  then have r: "computeMissingFromIntake intake = Inr (missing_list ?i)"
    by (rule computeMissing_printable)
  have 1: "set (missing_list ?i) \<subseteq> set required_fields"
    by (subst missing_list_filter) auto
  have 2: "\<forall>k\<in>set required_fields. ?i k = None \<longrightarrow> k \<in> set (missing_list ?i)"
    by (auto simp: required_fields_def missing_list_def text_missing_def seats_missing_def
        get_prop_def js_or_def)
  have 3: "\<not> isArray (get_prop ?i ''proposed_seats'') \<longrightarrow> ''proposed_seats'' \<in> set (missing_list ?i)"
    by (cases "get_prop ?i ''proposed_seats''")
       (simp_all add: missing_list_mem seats_missing_def isArray_def)
  show "\<exists>ms. computeMissingFromIntake intake = Inr ms \<and> set ms \<subseteq> set required_fields \<and>
      (\<forall>k\<in>set required_fields. intake_or_empty intake k = None \<longrightarrow> k \<in> set ms) \<and>
      (\<not> isArray (get_prop (intake_or_empty intake) ''proposed_seats'') \<longrightarrow> ''proposed_seats'' \<in> set ms)"
    using 1 2 3 by (simp add: r)
qed

theorem missing_fields_total_witness:
  "intake_printable intake_partial \<and>
   ''governing_law'' \<in> set required_fields \<and> intake_partial ''governing_law'' = None \<and>
   \<not> isArray (get_prop intake_partial ''proposed_seats'') \<and>
   (\<exists>ms. computeMissingFromIntake (Some intake_partial) = Inr ms \<and>
      ''governing_law'' \<in> set ms \<and> ''proposed_seats'' \<in> set ms \<and> ''current_seat'' \<notin> set ms)"
proof -
  have p: "intake_printable (intake_or_empty (Some intake_partial))"
    by (simp add: intake_printable_def text_fields_def intake_partial_def get_prop_def js_or_def
        intake_or_empty_def)
  have h: "''governing_law'' \<in> set required_fields" "intake_or_empty (Some intake_partial) ''governing_law'' = None"
    "\<not> isArray (get_prop (intake_or_empty (Some intake_partial)) ''proposed_seats'')"
    by (simp_all add: required_fields_def intake_partial_def intake_or_empty_def get_prop_def isArray_def)
  from missing_fields_total [of "Some intake_partial"] p
  obtain ms where ms: "computeMissingFromIntake (Some intake_partial) = Inr ms"
    and a: "\<forall>k\<in>set required_fields. intake_or_empty (Some intake_partial) k = None \<longrightarrow> k \<in> set ms"
    and b: "\<not> isArray (get_prop (intake_or_empty (Some intake_partial)) ''proposed_seats'') \<longrightarrow> ''proposed_seats'' \<in> set ms"
    by blast
  from h a b have in2: "''governing_law'' \<in> set ms" "''proposed_seats'' \<in> set ms" by blast+
  have "computeMissingFromIntake (Some intake_partial) =
          Inr [''proposed_seats'', ''arbitration_agreement_text'', ''institution_rules'', ''governing_law'']"
    by (simp add: eval_intake intake_partial_def)
  with ms have "''current_seat'' \<notin> set ms" by auto
  with p h ms in2 show ?thesis by (simp add: intake_or_empty_def)
qed

subsection \<open>Splitting the list of proposed seats\<close>

lemma split_at_nonempty: "split_at p raw \<noteq> []"
  by (induction raw) (auto split: list.splits)

lemma unsplit_Cons_head: "unsplit ((c # s) # ss) seps = c # unsplit (s # ss) seps"
  by (cases ss; cases seps) simp_all

lemma unsplit_split_at: "unsplit (split_at p raw) (filter p raw) = raw"
proof (induction raw)
  case Nil
  show ?case by simp
next
  case (Cons c cs)
  obtain s ss where sp: "split_at p cs = s # ss"
    using split_at_nonempty [of p cs] by (cases "split_at p cs") auto
  show ?case
  proof (cases "p c")
    case True
    with sp Cons show ?thesis by simp
  next
    case False
    with sp Cons show ?thesis by (simp add: unsplit_Cons_head)
  qed
qed

lemma split_at_no_separator: "s \<in> set (split_at p raw) \<Longrightarrow> c \<in> set s \<Longrightarrow> \<not> p c"
proof (induction raw arbitrary: s)
  case Nil
  then show ?case by simp
next
  case (Cons d ds)
  obtain t ts where sp: "split_at p ds = t # ts"
    using split_at_nonempty [of p ds] by (cases "split_at p ds") auto
  show ?case
  proof (cases "p d")
    case True
    with Cons show ?thesis by auto
  next
    case False
    with Cons.prems sp have "s = d # t \<or> s \<in> set ts" by auto
    then show ?thesis
    proof
      assume "s = d # t"
      with Cons.prems False Cons.IH [of t] sp show ?thesis by auto
    next
      assume "s \<in> set ts"
      with Cons.prems Cons.IH [of s] sp show ?thesis by auto
    qed
  qed
qed

lemma filter_map_nonempty:
  "filter (\<lambda>s. s \<noteq> []) (map f xs) = [f s. s \<leftarrow> xs, f s \<noteq> []]"
  by (induction xs) simp_all

lemma parseProposedSeats_elem:
  assumes "e \<in> set (parseProposedSeats raw)"
  shows "e \<noteq> [] \<and> trim e = e \<and> \<not> list_ex is_separator e"
proof -
  from assms obtain s where s: "s \<in> set (split_at is_separator raw)" and e: "e = trim s" and ne: "e \<noteq> []"
    by (auto simp: parseProposedSeats_def)
  have "\<forall>c\<in>set e. \<not> is_separator c"
    using split_at_no_separator [OF s] set_trim_subset [of s] e by blast
  then show ?thesis using e ne by (simp add: trim_idem list_ex_iff)
qed

lemma length_split_at: "length (split_at p raw) = Suc (length (filter p raw))"
proof (induction raw)
  case Nil
  show ?case by simp
next
  case (Cons c cs)
  obtain s ss where sp: "split_at p cs = s # ss"
    using split_at_nonempty [of p cs] by (cases "split_at p cs") auto
  with Cons show ?case by (cases "p c") auto
qed

lemma split_at_unique:
  assumes "\<forall>s\<in>set ps. \<forall>c\<in>set s. \<not> p c"
    and "length ps = Suc (length (filter p raw))"
    and "unsplit ps (filter p raw) = raw"
  shows "ps = split_at p raw"
  using assms
proof (induction raw arbitrary: ps)
  case Nil
  then obtain s where "ps = [s]" by (cases ps) auto
  with Nil show ?case by simp
next
  case (Cons c cs)
  from Cons.prems(2) obtain s rest where ps: "ps = s # rest" by (cases ps) auto
  show ?case
  proof (cases "p c")
    case True
    with Cons.prems(2) ps obtain t ss where rest: "rest = t # ss" by (cases rest) auto
    from Cons.prems(3) True ps rest
    have eq: "s @ c # unsplit (t # ss) (filter p cs) = c # cs" by simp
    have "s = []"
    proof (cases s)
      case Nil
      then show ?thesis .
    next
      case (Cons d s')
      with eq have "d = c" by simp
      with Cons True Cons.prems(1) ps show ?thesis by auto
    qed
    with eq have u: "unsplit rest (filter p cs) = cs" using rest by simp
    from Cons.prems(1) ps have f: "\<forall>s\<in>set rest. \<forall>c\<in>set s. \<not> p c" by simp
    from Cons.prems(2) True ps have l: "length rest = Suc (length (filter p cs))" by simp
    from Cons.IH [OF f l u] \<open>s = []\<close> ps True show ?thesis by simp
  next
    case False
    from Cons.prems(3) False ps have eq: "unsplit (s # rest) (filter p cs) = c # cs" by simp
    have "s \<noteq> []"
    proof
      assume e: "s = []"
      show False
      proof (cases rest)
        case Nil
        with eq e show False by simp
      next
        case (Cons t ss)
        with Cons.prems(2) False ps obtain d ds where f: "filter p cs = d # ds"
          by (cases "filter p cs") auto
        with eq e Cons have "d = c" by simp
        moreover have "d \<in> set (filter p cs)" using f by simp
        ultimately show False using False by simp
      qed
    qed
    then obtain s' where s: "s = c # s'"
      using eq by (cases s; cases rest; cases "filter p cs") auto
    with eq have u: "unsplit (s' # rest) (filter p cs) = cs"
      by (simp add: unsplit_Cons_head)
    from Cons.prems(1) ps s have f: "\<forall>t\<in>set (s' # rest). \<forall>c\<in>set t. \<not> p c" by simp
    from Cons.prems(2) False ps have l: "length (s' # rest) = Suc (length (filter p cs))" by simp
    from Cons.IH [OF f l u] have "split_at p cs = s' # rest" by simp
    with False ps s show ?thesis by simp
  qed
qed

lemma segments_of_split_at: "segments_of raw (split_at is_separator raw)"
  unfolding segments_of_def
  using split_at_no_separator [of _ is_separator raw]
  by (auto simp: list_all_iff list_ex_iff length_split_at unsplit_split_at)

lemma segments_of_unique: "segments_of raw ps \<Longrightarrow> ps = split_at is_separator raw"
  unfolding segments_of_def
  by (intro split_at_unique) (auto simp: list_all_iff list_ex_iff)

text \<open>
  C8. The input has exactly one list of segments, cut at every comma, semicolon and line
  feed (no segment holds a separator, there is one segment more than there are separators,
  and the segments with the separators between them are the input), and the result of
  \<open>parseProposedSeats\<close> is those segments that are non-empty after trimming, trimmed, in
  their order. Every element of the result is non-empty, already trimmed, and holds no
  separator. When the result is not empty, an intake that stores it under
  \<open>proposed_seats\<close> has that field present, and no list that
  \<open>computeMissingFromIntake\<close> returns for it holds \<open>proposed_seats\<close>; a list is
  returned whenever the other fields can be converted to strings.
\<close>

theorem parseProposedSeats_segments:
  "segments_of raw (split_at is_separator raw) \<and>
   (segments_of raw ps \<longrightarrow>
      ps = split_at is_separator raw \<and>
      parseProposedSeats raw = [trim s. s \<leftarrow> ps, trim s \<noteq> []]) \<and>
   (\<forall>e\<in>set (parseProposedSeats raw). e \<noteq> [] \<and> trim e = e \<and> \<not> list_ex is_separator e) \<and>
   (parseProposedSeats raw \<noteq> [] \<longrightarrow>
      seats_present (i(''proposed_seats'' \<mapsto> JArr (map JStr (parseProposedSeats raw)))) \<and>
      (computeMissingFromIntake
          (Some (i(''proposed_seats'' \<mapsto> JArr (map JStr (parseProposedSeats raw))))) = Inr ms
         \<longrightarrow> ''proposed_seats'' \<notin> set ms) \<and>
      (intake_printable (i(''proposed_seats'' \<mapsto> JArr (map JStr (parseProposedSeats raw))))
         \<longrightarrow> (\<exists>ms'. computeMissingFromIntake
                       (Some (i(''proposed_seats'' \<mapsto> JArr (map JStr (parseProposedSeats raw))))) =
                     Inr ms')))"
proof (intro conjI impI ballI)
  show "segments_of raw (split_at is_separator raw)"
    by (rule segments_of_split_at)
next
  assume "segments_of raw ps"
  then show a: "ps = split_at is_separator raw" by (rule segments_of_unique)
  show "parseProposedSeats raw = [trim s. s \<leftarrow> ps, trim s \<noteq> []]"
    unfolding a parseProposedSeats_def by (rule filter_map_nonempty)
next
  fix e assume "e \<in> set (parseProposedSeats raw)"
  then show "e \<noteq> []" "trim e = e" "\<not> list_ex is_separator e"
    using parseProposedSeats_elem [of e raw] by simp_all
next
  let ?j = "i(''proposed_seats'' \<mapsto> JArr (map JStr (parseProposedSeats raw)))"
  assume ne: "parseProposedSeats raw \<noteq> []"
  then obtain e where e: "e \<in> set (parseProposedSeats raw)" by (cases "parseProposedSeats raw") auto
  with parseProposedSeats_elem [of e raw] have te: "trim e \<noteq> []" by simp
  with e show "seats_present ?j"
    by (auto simp: seats_present_def get_prop_def list_ex_iff nonempty_string_def)
  from e te have "filter (\<lambda>x. trim (printed x) \<noteq> []) (map JStr (parseProposedSeats raw)) \<noteq> []"
    by (auto simp: filter_empty_conv)
  then have nm: "''proposed_seats'' \<notin> set (missing_list ?j)"
    by (simp add: missing_list_mem seats_missing_def get_prop_def text_fields_def)
  {
    assume "computeMissingFromIntake (Some ?j) = Inr ms"
    then have "ms = missing_list ?j" using computeMissing_result [of "Some ?j" ms]
      by (simp add: intake_or_empty_def)
    with nm show "''proposed_seats'' \<notin> set ms" by simp
  }
  {
    assume "intake_printable ?j"
    then show "\<exists>ms'. computeMissingFromIntake (Some ?j) = Inr ms'"
      using computeMissing_printable [of "Some ?j"] by (simp add: intake_or_empty_def)
  }
qed

theorem parseProposedSeats_segments_witness:
  "segments_of ''a,b c;'' [''a'', ''b c'', []] \<and>
   split_at is_separator ''a,b c;'' = [''a'', ''b c'', []] \<and>
   parseProposedSeats '' Paris, ;Geneva ;; '' = [''Paris'', ''Geneva''] \<and>
   ''Geneva'' \<in> set (parseProposedSeats '' Paris, ;Geneva ;; '') \<and>
   trim ''Geneva'' = ''Geneva'' \<and>
   intake_printable
     (Map.empty(''proposed_seats'' \<mapsto> JArr (map JStr (parseProposedSeats '' Paris, ;Geneva ;; '')))) \<and>
   computeMissingFromIntake
     (Some (Map.empty(''proposed_seats'' \<mapsto> JArr (map JStr (parseProposedSeats '' Paris, ;Geneva ;; ''))))) =
     Inr [''current_seat'', ''arbitration_agreement_text'', ''institution_rules'', ''governing_law'']"
proof -
  have sg: "segments_of ''a,b c;'' [''a'', ''b c'', []]"
    by (simp add: segments_of_def is_separator_def)
  have v: "parseProposedSeats '' Paris, ;Geneva ;; '' = [''Paris'', ''Geneva'']"
    by (simp add: parseProposedSeats_def is_separator_def trim_def js_whitespace_def)
  then have ne: "parseProposedSeats '' Paris, ;Geneva ;; '' \<noteq> []"
    and m: "''Geneva'' \<in> set (parseProposedSeats '' Paris, ;Geneva ;; '')" by simp_all
  let ?j = "Map.empty(''proposed_seats'' \<mapsto> JArr (map JStr (parseProposedSeats '' Paris, ;Geneva ;; '')))"
  have p: "intake_printable ?j"
    by (simp add: v intake_printable_def text_fields_def get_prop_def js_or_def)
  have c: "computeMissingFromIntake (Some ?j) =
      Inr [''current_seat'', ''arbitration_agreement_text'', ''institution_rules'', ''governing_law'']"
    by (simp add: v eval_intake)
  from parseProposedSeats_segments [of "''a,b c;''" "[''a'', ''b c'', []]"] sg
  have s: "[''a'', ''b c'', []] = split_at is_separator ''a,b c;''" by blast
  note t = parseProposedSeats_segments [of "'' Paris, ;Geneva ;; ''" _ Map.empty
      "[''current_seat'', ''arbitration_agreement_text'', ''institution_rules'', ''governing_law'']"]
  from t m have g: "trim ''Geneva'' = ''Geneva''" by blast
  from t ne c have "''proposed_seats'' \<notin>
      set [''current_seat'', ''arbitration_agreement_text'', ''institution_rules'', ''governing_law'']"
    by blast
  with sg s v m g p c show ?thesis by simp
qed

section \<open>Properties of the API client\<close>

lemma content_type_header [simp]:
  "headers_set [] ''Content-Type'' ''application/json'' = Inr [(''Content-Type'', ''application/json'')]"
  by (simp add: headers_set_def normalize_header_value_def header_value_ok_def http_whitespace_def)

lemma authorization_header:
  "(case access_token e of
      None \<Rightarrow> Inr [(''Content-Type'', ''application/json'')]
    | Some token \<Rightarrow>
        if token \<noteq> []
        then headers_set [(''Content-Type'', ''application/json'')] ''Authorization''
               (''Bearer '' @ token)
        else Inr [(''Content-Type'', ''application/json'')]) =
   (if token_ok e then Inr (headers (regenerate_request e projectId)) else Inl TypeError)"
  by (simp add: token_ok_def regenerate_request_def headers_set_def Let_def
      split: option.splits)

lemma regenerate_request_eq:
  "\<lparr>url = API_BASE e @ ''/projects/'' @ projectId @ ''/report/regenerate'',
    http_method = Some ''POST'', headers = headers (regenerate_request e projectId),
    body = NoBody\<rparr> = regenerate_request e projectId"
  by (simp add: regenerate_request_def)

lemma regenerateReport_unfold:
  "regenerateReport e projectId =
     (if \<not> token_ok e then Inl TypeError
      else case fetch e (regenerate_request e projectId) of
        Inl err \<Rightarrow> Inl err
      | Inr res \<Rightarrow>
          if \<not> ok res then
            Inl (ApiError
                   (case (case parseErrorBody res of
                            JObj kvs \<Rightarrow>
                              (case obj_get kvs ''detail'' of
                                 Some d \<Rightarrow> d | None \<Rightarrow> parseErrorBody res)
                          | _ \<Rightarrow> parseErrorBody res) of
                      JStr d \<Rightarrow> d
                    | _ \<Rightarrow> ''Request failed ('' @ string_of_nat (status res) @ '')'')
                   (status res) (parseErrorBody res))
          else if str_includes (header_or_empty res) ''application/json''
               then (case json res of None \<Rightarrow> Inl SyntaxError | Some v \<Rightarrow> Inr v)
               else Inr (JStr (body_text res)))"
proof (cases "token_ok e")
  case True
  show ?thesis
    unfolding regenerateReport_def apiFetch_def Let_def
    by (simp only: content_type_header authorization_header [of e projectId]
        regenerate_request_eq True map_of.simps req_body.simps sum.case if_True if_False
        simp_thms not_True_eq_False)
next
  case False
  show ?thesis
    unfolding regenerateReport_def apiFetch_def Let_def
    by (simp only: content_type_header authorization_header [of e projectId]
        False map_of.simps req_body.simps sum.case if_True if_False simp_thms)
qed

lemmas eval_api =
  regenerateReport_def apiFetch_def ok_def parseErrorBody_def header_or_empty_def obj_get_def
  accepted_shape_def regenerate_request_def headers_set_def normalize_header_value_def
  header_value_ok_def http_whitespace_def token_ok_def has_string_detail_def

text \<open>
  C5, as the claim states it, fails: when the server answers 409 the operation returns no
  value at all, it throws the \<open>ApiError\<close>; and when the server answers 200 with the
  declared body \<open>{ok: true}\<close>, the value returned has no \<open>accepted\<close>.
\<close>

theorem regenerateReport_throws_on_conflict:
  "regenerateReport conflict_env ''p1'' =
     Inl (ApiError ''Report generation already running'' 409
            (JObj [(''detail'', JStr ''Report generation already running'')])) \<and>
   regenerateReport ok_env ''p1'' = Inr (JObj [(''ok'', JBool True)]) \<and>
   \<not> accepted_shape (JObj [(''ok'', JBool True)])"
  by (simp add: eval_api conflict_env_def conflict_fetch_def conflict_response_def
      ok_env_def ok_fetch_def ok_response_def)

text \<open>
  C5, amended. \<open>api.regenerateReport\<close> hands to \<open>fetch\<close> the request
  \<open>POST /projects/{id}/report/regenerate\<close>, unless the stored token makes no valid
  header value: then it throws a \<open>TypeError\<close>. When \<open>fetch\<close> fails it
  passes the error on. When the status of the response is not 2xx it returns no value: it
  throws an \<open>ApiError\<close> with the status and the error body (the parsed JSON when the
  content type is JSON, \<open>undefined\<close> when that JSON does not parse, else the text), whose
  message is the \<open>detail\<close> of an object body when that is a string, the body itself when
  the body is a string (a text body is its own message), and \<open>Request failed (status)\<close>
  in every other case. When the status is 2xx it returns the body as the server sent it:
  the parsed JSON when the content type is JSON, throwing a \<open>SyntaxError\<close> when it does
  not parse, else the text.
\<close>

theorem regenerateReport_result:
  "(\<not> token_ok e \<longrightarrow> regenerateReport e projectId = Inl TypeError) \<and>
   (token_ok e \<and> fetch e (regenerate_request e projectId) = Inl err \<longrightarrow>
      regenerateReport e projectId = Inl err) \<and>
   (token_ok e \<and> fetch e (regenerate_request e projectId) = Inr res \<longrightarrow>
      (\<not> ok res \<longrightarrow>
         parseErrorBody res =
           (if str_includes (header_or_empty res) ''application/json''
            then (case json res of None \<Rightarrow> JUndefined | Some v \<Rightarrow> v)
            else JStr (body_text res)) \<and>
         (\<forall>kvs d. parseErrorBody res = JObj kvs \<and> obj_get kvs ''detail'' = Some (JStr d) \<longrightarrow>
            regenerateReport e projectId = Inl (ApiError d (status res) (JObj kvs))) \<and>
         (\<forall>t. parseErrorBody res = JStr t \<longrightarrow>
            regenerateReport e projectId = Inl (ApiError t (status res) (JStr t))) \<and>
         (\<not> has_string_detail (parseErrorBody res) \<and> \<not> is_string (parseErrorBody res) \<longrightarrow>
            regenerateReport e projectId =
              Inl (ApiError (''Request failed ('' @ string_of_nat (status res) @ '')'')
                     (status res) (parseErrorBody res)))) \<and>
      (ok res \<and> str_includes (header_or_empty res) ''application/json'' \<longrightarrow>
         regenerateReport e projectId =
           (case json res of None \<Rightarrow> Inl SyntaxError | Some v \<Rightarrow> Inr v)) \<and>
      (ok res \<and> \<not> str_includes (header_or_empty res) ''application/json'' \<longrightarrow>
         regenerateReport e projectId = Inr (JStr (body_text res))))"
proof (intro conjI impI allI)
  assume "\<not> token_ok e"
  then show "regenerateReport e projectId = Inl TypeError"
    by (simp add: regenerateReport_unfold)
next
  assume "token_ok e \<and> fetch e (regenerate_request e projectId) = Inl err"
  then show "regenerateReport e projectId = Inl err"
    by (simp add: regenerateReport_unfold)
next
  assume a: "token_ok e \<and> fetch e (regenerate_request e projectId) = Inr res"
  {
    assume n: "\<not> ok res"
    show "parseErrorBody res =
           (if str_includes (header_or_empty res) ''application/json''
            then (case json res of None \<Rightarrow> JUndefined | Some v \<Rightarrow> v)
            else JStr (body_text res))"
      by (simp add: parseErrorBody_def)
    {
      fix kvs d
      assume "parseErrorBody res = JObj kvs \<and> obj_get kvs ''detail'' = Some (JStr d)"
      with a n show "regenerateReport e projectId = Inl (ApiError d (status res) (JObj kvs))"
        by (simp add: regenerateReport_unfold)
    }
    {
      fix t
      assume "parseErrorBody res = JStr t"
      with a n show "regenerateReport e projectId = Inl (ApiError t (status res) (JStr t))"
        by (simp add: regenerateReport_unfold)
    }
    {
      assume o: "\<not> has_string_detail (parseErrorBody res) \<and> \<not> is_string (parseErrorBody res)"
      have "(case (case parseErrorBody res of
                     JObj kvs \<Rightarrow>
                       (case obj_get kvs ''detail'' of
                          Some d \<Rightarrow> d | None \<Rightarrow> parseErrorBody res)
                   | _ \<Rightarrow> parseErrorBody res) of
               JStr d \<Rightarrow> d
             | _ \<Rightarrow> ''Request failed ('' @ string_of_nat (status res) @ '')'') =
            ''Request failed ('' @ string_of_nat (status res) @ '')''"
      proof (cases "parseErrorBody res")
        case (JObj kvs)
        with o show ?thesis
          by (cases "obj_get kvs ''detail''"; cases "the (obj_get kvs ''detail'')")
             (simp_all add: has_string_detail_def)
      qed (use o in \<open>simp_all add: is_string_def\<close>)
      with a n show "regenerateReport e projectId =
              Inl (ApiError (''Request failed ('' @ string_of_nat (status res) @ '')'')
                     (status res) (parseErrorBody res))"
        by (simp add: regenerateReport_unfold)
    }
  }
  {
    assume "ok res \<and> str_includes (header_or_empty res) ''application/json''"
    with a show "regenerateReport e projectId =
           (case json res of None \<Rightarrow> Inl SyntaxError | Some v \<Rightarrow> Inr v)"
      by (simp add: regenerateReport_unfold)
  }
  {
    assume "ok res \<and> \<not> str_includes (header_or_empty res) ''application/json''"
    with a show "regenerateReport e projectId = Inr (JStr (body_text res))"
      by (simp add: regenerateReport_unfold)
  }
qed

theorem regenerateReport_result_witness:
  "\<not> token_ok bad_token_env \<and>
   regenerateReport bad_token_env ''p1'' = Inl TypeError \<and>
   token_ok offline_env \<and>
   fetch offline_env (regenerate_request offline_env ''p1'') = Inl TypeError \<and>
   regenerateReport offline_env ''p1'' = Inl TypeError \<and>
   token_ok conflict_env \<and>
   fetch conflict_env (regenerate_request conflict_env ''p1'') = Inr conflict_response \<and>
   \<not> ok conflict_response \<and>
   regenerateReport conflict_env ''p1'' =
     Inl (ApiError ''Report generation already running'' 409
            (JObj [(''detail'', JStr ''Report generation already running'')])) \<and>
   token_ok crash_env \<and>
   fetch crash_env (regenerate_request crash_env ''p1'') = Inr crash_response \<and>
   \<not> ok crash_response \<and>
   regenerateReport crash_env ''p1'' =
     Inl (ApiError ''Internal Server Error'' 500 (JStr ''Internal Server Error'')) \<and>
   token_ok notfound_env \<and>
   fetch notfound_env (regenerate_request notfound_env ''p1'') = Inr notfound_response \<and>
   \<not> ok notfound_response \<and>
   regenerateReport notfound_env ''p1'' =
     Inl (ApiError ''Request failed (404)'' 404 (JObj [(''error'', JStr ''no such project'')])) \<and>
   token_ok gateway_env \<and>
   fetch gateway_env (regenerate_request gateway_env ''p1'') =
     Inr (broken_response\<lparr>status := 502\<rparr>) \<and>
   \<not> ok (broken_response\<lparr>status := 502\<rparr>) \<and>
   regenerateReport gateway_env ''p1'' = Inl (ApiError ''Request failed (502)'' 502 JUndefined) \<and>
   token_ok ok_env \<and>
   fetch ok_env (regenerate_request ok_env ''p1'') = Inr ok_response \<and>
   ok ok_response \<and>
   regenerateReport ok_env ''p1'' = Inr (JObj [(''ok'', JBool True)]) \<and>
   token_ok broken_env \<and>
   fetch broken_env (regenerate_request broken_env ''p1'') = Inr broken_response \<and>
   ok broken_response \<and>
   regenerateReport broken_env ''p1'' = Inl SyntaxError \<and>
   token_ok text_env \<and>
   fetch text_env (regenerate_request text_env ''p1'') = Inr text_response \<and>
   ok text_response \<and>
   regenerateReport text_env ''p1'' = Inr (JStr ''started'')"
proof -
  have t0: "\<not> token_ok bad_token_env"
    by (simp add: eval_api bad_token_env_def)
  have r0: "regenerateReport bad_token_env ''p1'' = Inl TypeError"
    using regenerateReport_result [of bad_token_env "''p1''"] t0 by blast
  have t1: "token_ok offline_env"
    by (simp add: token_ok_def offline_env_def)
  have f1: "fetch offline_env (regenerate_request offline_env ''p1'') = Inl TypeError"
    by (simp add: offline_env_def offline_fetch_def)
  have r1: "regenerateReport offline_env ''p1'' = Inl TypeError"
    using regenerateReport_result [of offline_env "''p1''" TypeError] t1 f1 by blast
  have t2: "token_ok conflict_env"
    by (simp add: eval_api conflict_env_def)
  have f2: "fetch conflict_env (regenerate_request conflict_env ''p1'') = Inr conflict_response"
    by (simp add: conflict_env_def conflict_fetch_def)
  have n2: "\<not> ok conflict_response"
    by (simp add: ok_def conflict_response_def)
  have h2: "parseErrorBody conflict_response =
        JObj [(''detail'', JStr ''Report generation already running'')] \<and>
      obj_get [(''detail'', JStr ''Report generation already running'')] ''detail'' =
        Some (JStr ''Report generation already running'')"
    by (simp add: eval_api conflict_response_def)
  have r2: "regenerateReport conflict_env ''p1'' =
     Inl (ApiError ''Report generation already running'' 409
            (JObj [(''detail'', JStr ''Report generation already running'')]))"
  proof -
    have "regenerateReport conflict_env ''p1'' =
        Inl (ApiError ''Report generation already running'' (status conflict_response)
               (JObj [(''detail'', JStr ''Report generation already running'')]))"
      using regenerateReport_result [of conflict_env "''p1''" _ conflict_response] t2 f2 n2 h2
      by blast
    then show ?thesis
      by (simp add: conflict_response_def)
  qed
  have t3: "token_ok crash_env"
    by (simp add: token_ok_def crash_env_def)
  have f3: "fetch crash_env (regenerate_request crash_env ''p1'') = Inr crash_response"
    by (simp add: crash_env_def crash_fetch_def)
  have n3: "\<not> ok crash_response"
    by (simp add: ok_def crash_response_def)
  have h3: "parseErrorBody crash_response = JStr ''Internal Server Error''"
    by (simp add: eval_api crash_response_def)
  have r3: "regenerateReport crash_env ''p1'' =
     Inl (ApiError ''Internal Server Error'' 500 (JStr ''Internal Server Error''))"
  proof -
    have "regenerateReport crash_env ''p1'' =
        Inl (ApiError ''Internal Server Error'' (status crash_response)
               (JStr ''Internal Server Error''))"
      using regenerateReport_result [of crash_env "''p1''" _ crash_response] t3 f3 n3 h3
      by blast
    then show ?thesis
      by (simp add: crash_response_def)
  qed
  have t4: "token_ok notfound_env"
    by (simp add: token_ok_def notfound_env_def)
  have f4: "fetch notfound_env (regenerate_request notfound_env ''p1'') = Inr notfound_response"
    by (simp add: notfound_env_def notfound_fetch_def)
  have n4: "\<not> ok notfound_response"
    by (simp add: ok_def notfound_response_def)
  have h4: "parseErrorBody notfound_response = JObj [(''error'', JStr ''no such project'')] \<and>
      \<not> has_string_detail (parseErrorBody notfound_response) \<and>
      \<not> is_string (parseErrorBody notfound_response)"
    by (simp add: eval_api is_string_def notfound_response_def)
  have s4: "string_of_nat (status notfound_response) = ''404''"
    unfolding notfound_response_def by code_simp
  have r4: "regenerateReport notfound_env ''p1'' =
     Inl (ApiError ''Request failed (404)'' 404 (JObj [(''error'', JStr ''no such project'')]))"
  proof -
    have "regenerateReport notfound_env ''p1'' =
        Inl (ApiError (''Request failed ('' @ string_of_nat (status notfound_response) @ '')'')
               (status notfound_response) (parseErrorBody notfound_response))"
      using regenerateReport_result [of notfound_env "''p1''" _ notfound_response] t4 f4 n4 h4
      by blast
    moreover have "status notfound_response = 404"
      by (simp add: notfound_response_def)
    ultimately show ?thesis
      using s4 h4 by (simp only: append.simps)
  qed
  have t5: "token_ok gateway_env"
    by (simp add: token_ok_def gateway_env_def)
  have f5: "fetch gateway_env (regenerate_request gateway_env ''p1'') =
      Inr (broken_response\<lparr>status := 502\<rparr>)"
    by (simp add: gateway_env_def gateway_fetch_def)
  have n5: "\<not> ok (broken_response\<lparr>status := 502\<rparr>)"
    by (simp add: ok_def broken_response_def)
  have h5: "parseErrorBody (broken_response\<lparr>status := 502\<rparr>) = JUndefined \<and>
      \<not> has_string_detail (parseErrorBody (broken_response\<lparr>status := 502\<rparr>)) \<and>
      \<not> is_string (parseErrorBody (broken_response\<lparr>status := 502\<rparr>))"
    by (simp add: eval_api is_string_def broken_response_def)
  have s5: "string_of_nat (status (broken_response\<lparr>status := 502\<rparr>)) = ''502''"
    unfolding broken_response_def by code_simp
  have r5: "regenerateReport gateway_env ''p1'' =
      Inl (ApiError ''Request failed (502)'' 502 JUndefined)"
  proof -
    have "regenerateReport gateway_env ''p1'' =
        Inl (ApiError
               (''Request failed ('' @
                  string_of_nat (status (broken_response\<lparr>status := 502\<rparr>)) @ '')'')
               (status (broken_response\<lparr>status := 502\<rparr>))
               (parseErrorBody (broken_response\<lparr>status := 502\<rparr>)))"
      using regenerateReport_result [of gateway_env "''p1''" _ "broken_response\<lparr>status := 502\<rparr>"]
        t5 f5 n5 h5
      by blast
    moreover have "status (broken_response\<lparr>status := 502\<rparr>) = 502"
      by simp
    ultimately show ?thesis
      using s5 h5 by (simp only: append.simps)
  qed
  have t6: "token_ok ok_env"
    by (simp add: token_ok_def ok_env_def)
  have f6: "fetch ok_env (regenerate_request ok_env ''p1'') = Inr ok_response"
    by (simp add: ok_env_def ok_fetch_def)
  have h6: "ok ok_response \<and> str_includes (header_or_empty ok_response) ''application/json''"
    by (simp add: eval_api ok_response_def)
  have r6: "regenerateReport ok_env ''p1'' = Inr (JObj [(''ok'', JBool True)])"
  proof -
    have "regenerateReport ok_env ''p1'' =
        (case json ok_response of None \<Rightarrow> Inl SyntaxError | Some v \<Rightarrow> Inr v)"
      using regenerateReport_result [of ok_env "''p1''" _ ok_response] t6 f6 h6 by blast
    then show ?thesis
      by (simp add: ok_response_def)
  qed
  have t7: "token_ok broken_env"
    by (simp add: token_ok_def broken_env_def)
  have f7: "fetch broken_env (regenerate_request broken_env ''p1'') = Inr broken_response"
    by (simp add: broken_env_def broken_fetch_def)
  have h7: "ok broken_response \<and>
      str_includes (header_or_empty broken_response) ''application/json''"
    by (simp add: eval_api broken_response_def)
  have r7: "regenerateReport broken_env ''p1'' = Inl SyntaxError"
  proof -
    have "regenerateReport broken_env ''p1'' =
        (case json broken_response of None \<Rightarrow> Inl SyntaxError | Some v \<Rightarrow> Inr v)"
      using regenerateReport_result [of broken_env "''p1''" _ broken_response] t7 f7 h7 by blast
    then show ?thesis
      by (simp add: broken_response_def)
  qed
  have t8: "token_ok text_env"
    by (simp add: token_ok_def text_env_def)
  have f8: "fetch text_env (regenerate_request text_env ''p1'') = Inr text_response"
    by (simp add: text_env_def text_fetch_def)
  have h8: "ok text_response \<and> \<not> str_includes (header_or_empty text_response) ''application/json''"
    by (simp add: eval_api text_response_def)
  have r8: "regenerateReport text_env ''p1'' = Inr (JStr ''started'')"
  proof -
    have "regenerateReport text_env ''p1'' = Inr (JStr (body_text text_response))"
      using regenerateReport_result [of text_env "''p1''" _ text_response] t8 f8 h8 by blast
    then show ?thesis
      by (simp add: text_response_def)
  qed
  from t0 r0 t1 f1 r1 t2 f2 n2 r2 t3 f3 n3 r3 t4 f4 n4 r4
    t5 f5 n5 r5 t6 f6 h6 r6 t7 f7 h7 r7 t8 f8 h8 r8
  show ?thesis
    by (intro conjI) (simp_all only: simp_thms)
qed

section \<open>Properties of the page handlers\<close>

subsection \<open>The status poll\<close>

lemma count_polls_le: "count_polls P f \<le> f"
  by (induction f arbitrary: P) auto

lemma count_polls_none: "(\<forall>k<f. \<not> P k) \<Longrightarrow> count_polls P f = f"
  by (induction f arbitrary: P) auto

lemma count_polls_first:
  "k < f \<Longrightarrow> P k \<Longrightarrow> (\<forall>j<k. \<not> P j) \<Longrightarrow> count_polls P f = Suc k"
proof (induction f arbitrary: P k)
  case 0
  then show ?case by simp
next
  case (Suc f)
  show ?case
  proof (cases k)
    case 0
    with Suc.prems show ?thesis by simp
  next
    case (Suc k')
    with Suc.prems have "\<not> P 0" by simp
    moreover have "count_polls (\<lambda>k. P (Suc k)) f = Suc k'"
      using Suc.prems Suc by (intro Suc.IH) auto
    ultimately show ?thesis using Suc by simp
  qed
qed

lemma poll_outcome_step:
  "calls st' = calls st @ [GetProject projectId] \<Longrightarrow>
   poll_outcome srv projectId st' k = poll_outcome srv projectId st (Suc k)"
  by (simp add: poll_outcome_def replicate_app_Cons_same)

lemma poll_loop_calls:
  "i \<le> 25 \<Longrightarrow>
   calls (poll_loop srv projectId i st) =
     calls st @ replicate (count_polls (\<lambda>k. settled (poll_outcome srv projectId st k)) (25 - i))
                  (GetProject projectId)"
proof (induction srv projectId i st rule: poll_loop.induct)
  case (1 srv projectId i st)
  show ?case
  proof (cases "i < 25")
    case False
    with "1.prems" have "i = 25" by simp
    then show ?thesis by (simp add: poll_loop.simps [of srv projectId 25 st])
  next
    case True
    then obtain f where f: "25 - i = Suc f" "25 - Suc i = f" by (cases "25 - i") auto
    let ?st1 = "st\<lparr>calls := calls st @ [GetProject projectId]\<rparr>"
    have o0: "poll_outcome srv projectId st 0 = srv_getProject srv (calls st) projectId"
      by (simp add: poll_outcome_def)
    show ?thesis
    proof (cases "srv_getProject srv (calls st) projectId")
      case (Inl err)
      have ih: "calls (poll_loop srv projectId (Suc i) ?st1) =
          calls ?st1 @ replicate (count_polls (\<lambda>k. settled (poll_outcome srv projectId ?st1 k)) f)
                  (GetProject projectId)"
        using "1.IH"(1) [OF True refl Inl] True f by simp
      have sh: "\<And>k. poll_outcome srv projectId ?st1 k = poll_outcome srv projectId st (Suc k)"
        by (rule poll_outcome_step) simp
      have ns: "\<not> settled (poll_outcome srv projectId st 0)" using Inl o0 by (simp add: settled_def)
      have "poll_loop srv projectId i st = poll_loop srv projectId (Suc i) ?st1"
        using True Inl by (subst poll_loop.simps) simp
      then show ?thesis using ih sh ns f by (simp add: replicate_app_Cons_same)
    next
      case (Inr p)
      let ?st2 = "?st1\<lparr>chattingProject :=
                             (case chattingProject ?st1 of
                                None \<Rightarrow> None
                              | Some cur \<Rightarrow> if po_id cur = po_id p then Some p else Some cur),
                           projects :=
                             map (\<lambda>x. if po_id x = po_id p then p else x) (projects ?st1)\<rparr>"
      show ?thesis
      proof (cases "po_status p \<noteq> ''working''")
        case True
        then have s: "settled (poll_outcome srv projectId st 0)" using Inr o0 by (simp add: settled_def)
        have "poll_loop srv projectId i st = ?st2"
          using \<open>i < 25\<close> Inr True by (subst poll_loop.simps) (simp add: Let_def)
        then show ?thesis using s f by simp
      next
        case False
        then have ns: "\<not> settled (poll_outcome srv projectId st 0)" using Inr o0 by (simp add: settled_def)
        have ih: "calls (poll_loop srv projectId (Suc i) ?st2) =
          calls ?st2 @ replicate (count_polls (\<lambda>k. settled (poll_outcome srv projectId ?st2 k)) f)
                  (GetProject projectId)"
          using "1.IH"(2) [OF \<open>i < 25\<close> refl Inr refl] False \<open>i < 25\<close> f by simp
        have sh: "\<And>k. poll_outcome srv projectId ?st2 k = poll_outcome srv projectId st (Suc k)"
          by (rule poll_outcome_step) simp
        have "poll_loop srv projectId i st = poll_loop srv projectId (Suc i) ?st2"
          using \<open>i < 25\<close> Inr False by (subst poll_loop.simps) (simp add: Let_def)
        then show ?thesis using ih sh ns f by (simp add: replicate_app_Cons_same)
      qed
    qed
  qed
qed

lemma polls_made_count:
  "polls_made srv projectId st =
     count_polls (\<lambda>k. settled (poll_outcome srv projectId st k)) 25"
  by (simp add: polls_made_def pollProjectUntilNotWorking_def poll_loop_calls)

text \<open>
  C10. \<open>pollProjectUntilNotWorking\<close> returns on every backend (the loop is a total
  function), after at most 25 polls, each one a call of \<open>getProject\<close> for the same project.
  It stops at the first poll that succeeds and shows a status other than \<open>working\<close>;
  when none of the 25 polls does, it makes all 25.
\<close>

theorem poll_terminates_within_25:
  "polls_made srv projectId st \<le> 25 \<and>
   calls (pollProjectUntilNotWorking srv projectId st) =
     calls st @ replicate (polls_made srv projectId st) (GetProject projectId) \<and>
   (\<forall>k<25. settled (poll_outcome srv projectId st k) \<and>
             (\<forall>j<k. \<not> settled (poll_outcome srv projectId st j))
        \<longrightarrow> polls_made srv projectId st = Suc k) \<and>
   ((\<forall>k<25. \<not> settled (poll_outcome srv projectId st k)) \<longrightarrow> polls_made srv projectId st = 25)"
proof (intro conjI allI impI)
  show "polls_made srv projectId st \<le> 25"
    unfolding polls_made_count by (rule count_polls_le)
next
  show "calls (pollProjectUntilNotWorking srv projectId st) =
     calls st @ replicate (polls_made srv projectId st) (GetProject projectId)"
    unfolding polls_made_count by (simp add: pollProjectUntilNotWorking_def poll_loop_calls)
next
  fix k
  assume "k < 25"
    and "settled (poll_outcome srv projectId st k) \<and>
         (\<forall>j<k. \<not> settled (poll_outcome srv projectId st j))"
  then show "polls_made srv projectId st = Suc k"
    unfolding polls_made_count by (intro count_polls_first) simp_all
next
  assume "\<forall>k<25. \<not> settled (poll_outcome srv projectId st k)"
  then show "polls_made srv projectId st = 25"
    unfolding polls_made_count by (rule count_polls_none)
qed

lemmas eval_demo =
  poll_outcome_def settled_def demo_server_def demo_getProject_def page_initial_def
  project_working_def project_complete_def

theorem poll_terminates_within_25_witness:
  "(2::nat) < 25 \<and>
   settled (poll_outcome demo_server ''p1'' page_initial 2) \<and>
   \<not> settled (poll_outcome demo_server ''p1'' page_initial 0) \<and>
   \<not> settled (poll_outcome demo_server ''p1'' page_initial 1) \<and>
   polls_made demo_server ''p1'' page_initial = 3"
proof -
  have s2: "settled (poll_outcome demo_server ''p1'' page_initial 2)"
    by (simp add: eval_demo numeral_2_eq_2)
  have s0: "\<not> settled (poll_outcome demo_server ''p1'' page_initial 0)"
    by (simp add: eval_demo)
  have s1: "\<not> settled (poll_outcome demo_server ''p1'' page_initial 1)"
    by (simp add: eval_demo)
  have before: "\<forall>j<2. \<not> settled (poll_outcome demo_server ''p1'' page_initial j)"
  proof (intro allI impI)
    fix j :: nat assume "j < 2"
    then have "j = 0 \<or> j = 1" by auto
    with s0 s1 show "\<not> settled (poll_outcome demo_server ''p1'' page_initial j)" by auto
  qed
  have lt: "(2::nat) < 25" by simp
  from poll_terminates_within_25 [of demo_server "''p1''" page_initial] lt s2 before
  have "polls_made demo_server ''p1'' page_initial = Suc 2" by blast
  with lt s2 s0 s1 show ?thesis by simp
qed

subsection \<open>Sending a chat message\<close>

text \<open>
  C4, as the claim states it, fails: with the chat of a project open and an input of white
  space only, \<open>handleSendMessage\<close> returns the page unchanged, and no error is reported.
\<close>

theorem empty_message_silently_ignored:
  "trim (inputMessage page_blank_input) = [] \<and>
   chatError page_blank_input = None \<and>
   handleSendMessage demo_server page_blank_input = page_blank_input \<and>
   chatError (handleSendMessage demo_server page_blank_input) = None"
  by (simp add: handleSendMessage_def page_blank_input_def page_initial_def trim_def
      js_whitespace_def)

text \<open>
  C4, amended. When the text of the input is empty after trimming, \<open>handleSendMessage\<close>
  makes no call to the backend, so no message is sent or persisted, and the message list,
  the input, the open project and the project list (status and intake) stay as they are.
  No error is reported for the empty text: for a logged-in user the whole page state is
  unchanged, and in guest mode the only change is the error that login is required.
\<close>

theorem empty_message_not_sent:
  assumes "trim (inputMessage st) = []"
  shows
    "calls (handleSendMessage srv st) = calls st \<and>
     messages (handleSendMessage srv st) = messages st \<and>
     inputMessage (handleSendMessage srv st) = inputMessage st \<and>
     chattingProject (handleSendMessage srv st) = chattingProject st \<and>
     projects (handleSendMessage srv st) = projects st \<and>
     chatError (handleSendMessage srv st) =
       (if guest st then Some ''Login is required to chat.'' else chatError st) \<and>
     (\<not> guest st \<longrightarrow> handleSendMessage srv st = st)"
  using assms by (cases "chattingProject st") (simp_all add: handleSendMessage_def)

theorem empty_message_not_sent_witness:
  "trim (inputMessage page_blank_input) = [] \<and>
   \<not> guest page_blank_input \<and>
   calls (handleSendMessage demo_server page_blank_input) = [] \<and>
   messages (handleSendMessage demo_server page_blank_input) = [] \<and>
   chattingProject (handleSendMessage demo_server page_blank_input) = Some project_working \<and>
   chatError (handleSendMessage demo_server page_blank_input) = None \<and>
   handleSendMessage demo_server page_blank_input = page_blank_input"
proof -
  have h: "trim (inputMessage page_blank_input) = []"
    by (simp add: page_blank_input_def page_initial_def trim_def js_whitespace_def)
  have g: "\<not> guest page_blank_input"
    by (simp add: page_blank_input_def page_initial_def)
  note r = empty_message_not_sent [OF h, of demo_server]
  from r g have same: "handleSendMessage demo_server page_blank_input = page_blank_input"
    by blast
  from r g have
    "calls (handleSendMessage demo_server page_blank_input) = calls page_blank_input"
    "messages (handleSendMessage demo_server page_blank_input) = messages page_blank_input"
    "chattingProject (handleSendMessage demo_server page_blank_input) = chattingProject page_blank_input"
    "chatError (handleSendMessage demo_server page_blank_input) = chatError page_blank_input"
    by simp_all
  then show ?thesis using h g same
    by (simp add: page_blank_input_def page_initial_def)
qed

section \<open>Properties of the project status\<close>

lemma constraint_error_None: "constraint_error r = None \<longleftrightarrow> not_null_ok r \<and> status_check r"
  by (simp add: constraint_error_def)

lemma constraint_ok_status:
  "constraint_error r = None \<Longrightarrow> \<exists>s\<in>set status_values. row_status r = Some s"
  by (cases "row_status r") (auto simp: constraint_error_None not_null_ok_def status_check_def)

lemma insert_rows:
  "insert_project fresh now vs tbl = Inr tbl' \<Longrightarrow>
     tbl' = tbl @ [inserted_row fresh now vs] \<and> constraint_error (inserted_row fresh now vs) = None"
  by (auto simp: insert_project_def Let_def split: option.splits if_splits)

lemma update_rows:
  assumes "update_project now wh vs tbl = Inr tbl'"
  shows "\<forall>r\<in>set tbl'. constraint_error r = None"
proof -
  let ?t = "map (\<lambda>r. if wh r then updated_row now vs r else r) tbl"
  from assms have f: "List.find (\<lambda>r. constraint_error r \<noteq> None) ?t = None" and e: "tbl' = ?t"
    by (simp_all add: update_project_def Let_def split: option.splits if_splits)
  from f have "\<not> (\<exists>r. r \<in> set ?t \<and> constraint_error r \<noteq> None)"
    unfolding find_None_iff .
  then show ?thesis unfolding e by blast
qed

lemma table_reachable_constraints:
  "table_reachable tbl \<Longrightarrow> \<forall>r\<in>set tbl. constraint_error r = None"
proof (induction rule: table_reachable.induct)
  case created
  show ?case by simp
next
  case (inserted tbl fresh now vs tbl')
  then show ?case using insert_rows [of fresh now vs tbl tbl'] by auto
next
  case (updated tbl now wh vs tbl')
  then show ?case using update_rows [of now wh vs tbl tbl'] by blast
next
  case (deleted tbl wh)
  then show ?case by (simp add: delete_project_def)
qed

lemma create_statuses_append [simp]:
  "create_statuses (xs @ ys) = create_statuses xs @ create_statuses ys"
  by (simp add: create_statuses_def)

lemma create_statuses_single [simp]: "create_statuses [c] = create_status c"
  by (simp add: create_statuses_def)

lemma loadProjects_calls:
  "create_statuses (calls (loadProjects srv silent st)) = create_statuses (calls st)"
  by (simp add: loadProjects_def Let_def split: sum.splits)

lemma handleCreate_statuses:
  "create_statuses (calls (handleCreate srv st)) =
     (if guest st \<or> trim (createTitle st) = [] then create_statuses (calls st)
      else create_statuses (calls st) @ [Some ''working''])"
  by (simp add: handleCreate_def Let_def loadProjects_calls split: sum.splits)

lemma insert_bad_status:
  "s \<notin> set status_values \<Longrightarrow> v_status vs = Val s \<Longrightarrow> \<exists>e. insert_project fresh now vs tbl = Inl e"
  by (auto simp: insert_project_def Let_def constraint_error_def inserted_row_def
      column_value_def status_check_def split: option.splits)

lemma update_bad_status:
  assumes "s \<notin> set status_values" "v_status vs = Val s" "r \<in> set tbl" "wh r"
  shows "\<exists>e. update_project now wh vs tbl = Inl e"
proof -
  let ?tbl' = "map (\<lambda>r. if wh r then updated_row now vs r else r) tbl"
  have "updated_row now vs r \<in> set ?tbl'" using assms(3,4) by force
  moreover have "constraint_error (updated_row now vs r) \<noteq> None"
    using assms(1,2)
    by (auto simp: constraint_error_def updated_row_def column_value_def status_check_def)
  ultimately have "List.find (\<lambda>r. constraint_error r \<noteq> None) ?tbl' \<noteq> None"
    by (auto simp: find_None_iff)
  then show ?thesis by (auto simp: update_project_def Let_def)
qed

lemma table_reachable_distinct: "table_reachable tbl \<Longrightarrow> distinct (map row_id tbl)"
proof (induction rule: table_reachable.induct)
  case created
  show ?case by simp
next
  case (inserted tbl fresh now vs tbl')
  from inserted(2) have "tbl' = tbl @ [inserted_row fresh now vs]"
    and "row_id (inserted_row fresh now vs) \<notin> set (map row_id tbl)"
    by (simp_all add: insert_project_def Let_def split: option.splits if_splits)
  with inserted(3) show ?case by simp
next
  case (updated tbl now wh vs tbl')
  from updated(2)
  have e: "tbl' = map (\<lambda>r. if wh r then updated_row now vs r else r) tbl"
    and d: "distinct (map row_id (map (\<lambda>r. if wh r then updated_row now vs r else r) tbl))"
    by (simp_all add: update_project_def Let_def split: option.splits if_splits del: map_map)
  from d show ?case unfolding e .
next
  case (deleted tbl wh)
  then show ?case by (simp add: delete_project_def distinct_map_filter)
qed

lemma update_rows_eq:
  "update_project now wh vs tbl = Inr tbl' \<Longrightarrow>
     tbl' = map (\<lambda>r. if wh r then updated_row now vs r else r) tbl"
  by (simp add: update_project_def Let_def split: option.splits if_splits)

lemma status_only_row:
  "updated_row now (status_only s) r = r\<lparr>row_status := Some s, updated_at := Some now\<rparr>"
  by (simp add: updated_row_def status_only_def no_values_def column_value_def)

lemma status_only_constraint:
  "constraint_error r = None \<Longrightarrow> s \<in> set status_values \<Longrightarrow>
     constraint_error (r\<lparr>row_status := Some s, updated_at := Some now\<rparr>) = None"
  by (simp add: constraint_error_None not_null_ok_def status_check_def)

lemma status_only_accepted:
  assumes "table_reachable tbl" and "s \<in> set status_values"
  shows "update_project now wh (status_only s) tbl =
           Inr (map (\<lambda>r. if wh r then r\<lparr>row_status := Some s, updated_at := Some now\<rparr> else r) tbl)"
proof -
  let ?f = "\<lambda>r::project_row. if wh r then r\<lparr>row_status := Some s, updated_at := Some now\<rparr> else r"
  have ok: "\<forall>r\<in>set tbl. constraint_error (?f r) = None"
    using table_reachable_constraints [OF assms(1)] status_only_constraint [OF _ assms(2)]
    by simp
  have "constraint_error r = None" if "r \<in> set (map ?f tbl)" for r
  proof -
    from that obtain r0 where r0: "r0 \<in> set tbl" and r: "r = ?f r0"
      by auto
    from bspec [OF ok r0] show ?thesis
      unfolding r .
  qed
  note all_ok = this
  have f: "List.find (\<lambda>r. constraint_error r \<noteq> None) (map ?f tbl) = None"
    unfolding find_None_iff
  proof (intro notI, elim exE conjE)
    fix r
    assume m: "r \<in> set (map ?f tbl)" and n: "constraint_error r \<noteq> None"
    from n all_ok [OF m] show False
      by (rule notE)
  qed
  have "row_id (?f r) = row_id r" for r
    by simp
  then have "map row_id (map ?f tbl) = map row_id tbl"
    unfolding map_map comp_def by (simp only:)
  then have d: "distinct (map row_id (map ?f tbl))"
    using table_reachable_distinct [OF assms(1)] by (simp only:)
  have m: "map (\<lambda>r. if wh r then updated_row now (status_only s) r else r) tbl = map ?f tbl"
    by (simp add: status_only_row)
  show ?thesis
    unfolding update_project_def Let_def m by (simp only: f d option.case if_True)
qed

lemma update_keeps_report_fields:
  assumes "update_project now wh vs tbl = Inr tbl'" and "no_report_values vs"
  shows "map report_fields tbl' = map report_fields tbl"
proof -
  have "report_fields (updated_row now vs r) = report_fields r" for r
    using assms(2)
    by (simp add: report_fields_def updated_row_def no_report_values_def column_value_def)
  then show ?thesis
    unfolding update_rows_eq [OF assms(1)] by simp
qed

lemma update_keeps_status:
  assumes "update_project now wh vs tbl = Inr tbl'" and "v_status vs = Omitted"
  shows "map row_status tbl' = map row_status tbl"
proof -
  have "row_status (updated_row now vs r) = row_status r" for r
    using assms(2) by (simp add: updated_row_def column_value_def)
  then show ?thesis
    unfolding update_rows_eq [OF assms(1)] by simp
qed

text \<open>
  C3, as the claim states it, fails on the table: the column default \<open>working\<close> is used
  only when the \<open>INSERT\<close> names no status. A project can be created with the status
  \<open>complete\<close>; it is stored so, and the table with it is a reachable state.
\<close>

theorem project_created_complete:
  "insert_project 1 7 complete_project_values [] = Inr [inserted_row 1 7 complete_project_values] \<and>
   table_reachable [inserted_row 1 7 complete_project_values] \<and>
   row_status (inserted_row 1 7 complete_project_values) = Some ''complete'' \<and>
   row_status (inserted_row 1 7 complete_project_values) \<noteq> Some ''working''"
proof -
  have ins: "insert_project 1 7 complete_project_values [] =
      Inr [inserted_row 1 7 complete_project_values]"
    by (simp add: insert_project_def inserted_row_def column_value_def constraint_error_def
        not_null_ok_def status_check_def status_values_def no_values_def
        new_project_values_def complete_project_values_def)
  have st: "row_status (inserted_row 1 7 complete_project_values) = Some ''complete''"
    by (simp add: inserted_row_def column_value_def complete_project_values_def)
  from table_reachable.inserted [OF table_reachable.created ins] ins st show ?thesis
    by simp
qed

text \<open>
  C3, amended. The create request that \<open>handleCreate\<close> sends (exactly one, when the user
  is logged in and the title is not empty) carries the status \<open>working\<close>. A row that is
  inserted starts with the status its \<open>INSERT\<close> names, which is one of \<open>working\<close>,
  \<open>complete\<close>, \<open>intervention\<close>, and with \<open>working\<close> when the \<open>INSERT\<close> names none. In
  every reachable state of the table each row has one of these three statuses, and no
  statement can set another one: an insert or an update that gives another status fails.
\<close>

theorem project_status_invariant:
  "create_statuses (calls (handleCreate srv st)) =
     (if guest st \<or> trim (createTitle st) = [] then create_statuses (calls st)
      else create_statuses (calls st) @ [Some ''working'']) \<and>
   (insert_project fresh now vs tbl0 = Inr tbl1 \<longrightarrow>
      butlast tbl1 = tbl0 \<and>
      (v_status vs = Omitted \<and> row_status (last tbl1) = Some ''working'' \<or>
       (\<exists>s. s \<in> set status_values \<and> v_status vs = Val s \<and> row_status (last tbl1) = Some s))) \<and>
   (table_reachable tbl \<longrightarrow> (\<forall>r\<in>set tbl. \<exists>s\<in>set status_values. row_status r = Some s)) \<and>
   (s \<notin> set status_values \<and> v_status vs' = Val s
      \<longrightarrow> (\<exists>e. insert_project fresh now vs' tbl' = Inl e)) \<and>
   (s \<notin> set status_values \<and> v_status vs' = Val s \<and> r \<in> set tbl' \<and> wh r
      \<longrightarrow> (\<exists>e. update_project now wh vs' tbl' = Inl e))"
proof (intro conjI impI)
  show "create_statuses (calls (handleCreate srv st)) =
     (if guest st \<or> trim (createTitle st) = [] then create_statuses (calls st)
      else create_statuses (calls st) @ [Some ''working''])"
    by (rule handleCreate_statuses)
next
  assume a: "insert_project fresh now vs tbl0 = Inr tbl1"
  then have t: "tbl1 = tbl0 @ [inserted_row fresh now vs]"
    and c: "constraint_error (inserted_row fresh now vs) = None"
    using insert_rows by blast+
  from t show "butlast tbl1 = tbl0" by simp
  from constraint_ok_status [OF c] obtain s0
    where s0: "s0 \<in> set status_values" "row_status (inserted_row fresh now vs) = Some s0"
    by blast
  have l: "last tbl1 = inserted_row fresh now vs" using t by simp
  show "v_status vs = Omitted \<and> row_status (last tbl1) = Some ''working'' \<or>
       (\<exists>s. s \<in> set status_values \<and> v_status vs = Val s \<and> row_status (last tbl1) = Some s)"
  proof (cases "v_status vs")
    case Omitted
    then show ?thesis unfolding l by (simp add: inserted_row_def column_value_def)
  next
    case Null
    with s0(2) show ?thesis by (simp add: inserted_row_def column_value_def)
  next
    case (Val x)
    with s0 show ?thesis unfolding l by (simp add: inserted_row_def column_value_def)
  qed
next
  assume "table_reachable tbl"
  then show "\<forall>r\<in>set tbl. \<exists>s\<in>set status_values. row_status r = Some s"
    using table_reachable_constraints constraint_ok_status by blast
next
  assume "s \<notin> set status_values \<and> v_status vs' = Val s"
  then show "\<exists>e. insert_project fresh now vs' tbl' = Inl e"
    using insert_bad_status by blast
next
  assume "s \<notin> set status_values \<and> v_status vs' = Val s \<and> r \<in> set tbl' \<and> wh r"
  then show "\<exists>e. update_project now wh vs' tbl' = Inl e"
    using update_bad_status [of s vs' r tbl' wh now] by blast
qed

lemmas eval_table =
  insert_project_def inserted_row_def column_value_def constraint_error_def not_null_ok_def
  status_check_def status_values_def no_values_def new_project_values_def one_project_def

theorem project_status_invariant_witness:
  "\<not> guest page_create_form \<and> trim (createTitle page_create_form) = ''Seat change'' \<and>
   create_statuses (calls (handleCreate demo_server page_create_form)) = [Some ''working''] \<and>
   insert_project 1 7 new_project_values [] = Inr one_project \<and>
   v_status new_project_values = Omitted \<and>
   row_status (last one_project) = Some ''working'' \<and>
   table_reachable one_project \<and>
   row_status (hd one_project) \<in> Some ` set status_values \<and>
   ''done'' \<notin> set status_values \<and>
   (\<exists>e. insert_project 2 9 (new_project_values\<lparr>v_status := Val ''done''\<rparr>) one_project = Inl e) \<and>
   hd one_project \<in> set one_project \<and> any_row (hd one_project) \<and>
   (\<exists>e. update_project 9 any_row (no_values\<lparr>v_status := Val ''done''\<rparr>) one_project = Inl e)"
proof -
  have g: "\<not> guest page_create_form"
    and t: "trim (createTitle page_create_form) = ''Seat change''"
    and c0: "create_statuses (calls page_create_form) = []"
    by (simp_all add: page_create_form_def page_initial_def trim_def js_whitespace_def
        create_statuses_def)
  have ins: "insert_project 1 7 new_project_values [] = Inr one_project"
    by (simp add: eval_table)
  have om: "v_status new_project_values = Omitted"
    by (simp add: new_project_values_def no_values_def)
  have reach: "table_reachable one_project"
    using table_reachable.inserted [OF table_reachable.created ins] .
  have bad: "''done'' \<notin> set status_values" by (simp add: status_values_def)
  have v1: "v_status (new_project_values\<lparr>v_status := Val ''done''\<rparr>) = Val ''done''" by simp
  have v2: "v_status (no_values\<lparr>v_status := Val ''done''\<rparr>) = Val ''done''" by simp
  have mem: "hd one_project \<in> set one_project" by (simp add: one_project_def)
  have wh: "any_row (hd one_project)" by (simp add: any_row_def)
  note th1 = project_status_invariant
    [of demo_server page_create_form 1 7 new_project_values "[]" one_project
        one_project "''done''" "new_project_values\<lparr>v_status := Val ''done''\<rparr>" one_project
        "hd one_project" any_row]
  note th2 = project_status_invariant
    [of demo_server page_create_form 2 9 new_project_values "[]" one_project
        one_project "''done''" "new_project_values\<lparr>v_status := Val ''done''\<rparr>" one_project
        "hd one_project" any_row]
  note th3 = project_status_invariant
    [of demo_server page_create_form 2 9 new_project_values "[]" one_project
        one_project "''done''" "no_values\<lparr>v_status := Val ''done''\<rparr>" one_project
        "hd one_project" any_row]
  from th1 g t c0 have r1:
    "create_statuses (calls (handleCreate demo_server page_create_form)) = [Some ''working'']"
    by simp
  from th1 ins have "v_status new_project_values = Omitted \<and>
        row_status (last one_project) = Some ''working'' \<or>
      (\<exists>s. s \<in> set status_values \<and> v_status new_project_values = Val s \<and>
           row_status (last one_project) = Some s)"
    by blast
  with om have r2: "row_status (last one_project) = Some ''working''" by simp
  from th1 reach have r3: "\<forall>r\<in>set one_project. \<exists>s\<in>set status_values. row_status r = Some s"
    by blast
  from th2 bad v1 have r4:
    "\<exists>e. insert_project 2 9 (new_project_values\<lparr>v_status := Val ''done''\<rparr>) one_project = Inl e"
    by blast
  from th3 bad v2 mem wh have r5:
    "\<exists>e. update_project 9 any_row (no_values\<lparr>v_status := Val ''done''\<rparr>) one_project = Inl e"
    by blast
  from r3 mem have r3': "row_status (hd one_project) \<in> Some ` set status_values" by force
  from g t r1 ins om r2 reach r3' bad r4 mem wh r5 show ?thesis by blast
qed

section \<open>Properties of the report columns\<close>

lemma one_project_reachable: "table_reachable one_project"
proof -
  have "insert_project 1 7 new_project_values [] = Inr one_project"
    by (simp add: eval_table)
  from table_reachable.inserted [OF table_reachable.created this] show ?thesis .
qed

lemma stray_update:
  "update_project 9 any_row stray_report_values one_project = Inr stray_project"
  by (simp add: update_project_def updated_row_def any_row_def stray_report_values_def
      stray_project_def eval_table)

lemma stray_project_reachable: "table_reachable stray_project"
  using table_reachable.updated [OF one_project_reachable stray_update] .

lemmas eval_stray =
  stray_project_def stray_report_values_def updated_row_def one_project_def inserted_row_def
  new_project_values_def no_values_def column_value_def

text \<open>
  C7, as the claim states it, fails on the table: the six report columns are nullable and
  no constraint ties them to the status. An \<open>UPDATE\<close> that writes a failure and a location
  into a project in status \<open>working\<close> is accepted; the state it leaves is reachable, and
  its row has \<open>report_error\<close> and a location set, no \<open>report_generated_at\<close>, and the
  status \<open>working\<close>.
\<close>

theorem report_metadata_unconstrained:
  "table_reachable one_project \<and>
   update_project 9 any_row stray_report_values one_project = Inr stray_project \<and>
   table_reachable stray_project \<and>
   row_status (hd stray_project) = Some ''working'' \<and>
   report_error (hd stray_project) = Some ''timeout'' \<and>
   report_bucket (hd stray_project) = Some ''reports'' \<and>
   report_path (hd stray_project) = Some ''p1/report.docx'' \<and>
   report_generated_at (hd stray_project) = None \<and>
   \<not> report_invariant_spec (hd stray_project)"
proof -
  have "row_status (hd stray_project) = Some ''working''"
    and "report_error (hd stray_project) = Some ''timeout''"
    and "report_bucket (hd stray_project) = Some ''reports''"
    and "report_path (hd stray_project) = Some ''p1/report.docx''"
    and "report_generated_at (hd stray_project) = None"
    and "\<not> report_invariant_spec (hd stray_project)"
    by (simp_all add: eval_stray report_invariant_spec_def)
  with one_project_reachable stray_update stray_project_reachable show ?thesis
    by simp
qed

text \<open>
  C7, amended. What the table keeps of the report columns: a row that is inserted without
  report values has all six report columns \<open>NULL\<close>; an accepted \<open>UPDATE\<close> that names no
  report column leaves the report columns of every row as they were, and one that names
  no status leaves every status as it was; and in every reachable state an \<open>UPDATE\<close> that
  sets only the status, to one of its three values, is accepted and changes nothing but
  the status and \<open>updated_at\<close> of the rows it selects: the report columns are neither
  checked nor cleared when the status changes.
\<close>

theorem report_metadata_invariant:
  "(insert_project fresh now vs tbl0 = Inr tbl1 \<and> no_report_values vs \<longrightarrow>
      report_fields (last tbl1) = (None, None, None, None, None, None)) \<and>
   (update_project now wh vs tbl0 = Inr tbl1 \<and> no_report_values vs \<longrightarrow>
      map report_fields tbl1 = map report_fields tbl0) \<and>
   (update_project now wh vs tbl0 = Inr tbl1 \<and> v_status vs = Omitted \<longrightarrow>
      map row_status tbl1 = map row_status tbl0) \<and>
   (table_reachable tbl \<and> s \<in> set status_values \<longrightarrow>
      update_project now wh (status_only s) tbl =
        Inr (map (\<lambda>r. if wh r then r\<lparr>row_status := Some s, updated_at := Some now\<rparr> else r) tbl))"
proof (intro conjI impI)
  assume a: "insert_project fresh now vs tbl0 = Inr tbl1 \<and> no_report_values vs"
  then have "last tbl1 = inserted_row fresh now vs"
    using insert_rows [of fresh now vs tbl0 tbl1] by simp
  with a show "report_fields (last tbl1) = (None, None, None, None, None, None)"
    by (simp add: report_fields_def inserted_row_def no_report_values_def column_value_def)
next
  assume "update_project now wh vs tbl0 = Inr tbl1 \<and> no_report_values vs"
  then show "map report_fields tbl1 = map report_fields tbl0"
    using update_keeps_report_fields by blast
next
  assume "update_project now wh vs tbl0 = Inr tbl1 \<and> v_status vs = Omitted"
  then show "map row_status tbl1 = map row_status tbl0"
    using update_keeps_status by blast
next
  assume "table_reachable tbl \<and> s \<in> set status_values"
  then show "update_project now wh (status_only s) tbl =
        Inr (map (\<lambda>r. if wh r then r\<lparr>row_status := Some s, updated_at := Some now\<rparr> else r) tbl)"
    using status_only_accepted by blast
qed

theorem report_metadata_invariant_witness:
  "insert_project 1 7 new_project_values [] = Inr one_project \<and>
   no_report_values new_project_values \<and>
   report_fields (last one_project) = (None, None, None, None, None, None) \<and>
   table_reachable stray_project \<and> ''complete'' \<in> set status_values \<and>
   update_project 11 any_row (status_only ''complete'') stray_project =
     Inr [(hd stray_project)\<lparr>row_status := Some ''complete'', updated_at := Some 11\<rparr>] \<and>
   no_report_values (status_only ''complete'') \<and>
   map report_fields [(hd stray_project)\<lparr>row_status := Some ''complete'', updated_at := Some 11\<rparr>] =
     [(Some ''reports'', Some ''p1/report.docx'', None, None, None, Some ''timeout'')] \<and>
   update_project 9 any_row stray_report_values one_project = Inr stray_project \<and>
   v_status stray_report_values = Omitted \<and>
   map row_status stray_project = [Some ''working'']"
proof -
  have ins: "insert_project 1 7 new_project_values [] = Inr one_project"
    by (simp add: eval_table)
  have nr: "no_report_values new_project_values"
    by (simp add: no_report_values_def new_project_values_def no_values_def)
  have c: "''complete'' \<in> set status_values"
    by (simp add: status_values_def)
  have ns: "no_report_values (status_only ''complete'')"
    by (simp add: no_report_values_def status_only_def no_values_def)
  have om: "v_status stray_report_values = Omitted"
    by (simp add: stray_report_values_def no_values_def)
  have sel: "map (\<lambda>r. if any_row r then r\<lparr>row_status := Some ''complete'', updated_at := Some 11\<rparr>
                       else r) stray_project =
      [(hd stray_project)\<lparr>row_status := Some ''complete'', updated_at := Some 11\<rparr>]"
    by (simp add: any_row_def stray_project_def)
  have f0: "map report_fields stray_project =
      [(Some ''reports'', Some ''p1/report.docx'', None, None, None, Some ''timeout'')]"
    by (simp add: report_fields_def eval_stray)
  have s0: "map row_status one_project = [Some ''working'']"
    by (simp add: one_project_def inserted_row_def new_project_values_def no_values_def
        column_value_def)
  note th1 = report_metadata_invariant
    [of 1 7 new_project_values "[]" one_project any_row stray_project "''complete''"]
  note th2 = report_metadata_invariant
    [of 1 11 "status_only ''complete''" stray_project
        "[(hd stray_project)\<lparr>row_status := Some ''complete'', updated_at := Some 11\<rparr>]"
        any_row stray_project "''complete''"]
  note th3 = report_metadata_invariant
    [of 1 9 stray_report_values one_project stray_project any_row stray_project "''complete''"]
  from th1 ins nr
  have r1: "report_fields (last one_project) = (None, None, None, None, None, None)"
    by blast
  from th2 stray_project_reachable c
  have "update_project 11 any_row (status_only ''complete'') stray_project =
      Inr (map (\<lambda>r. if any_row r then r\<lparr>row_status := Some ''complete'', updated_at := Some 11\<rparr>
                     else r) stray_project)"
    by blast
  then have r2: "update_project 11 any_row (status_only ''complete'') stray_project =
      Inr [(hd stray_project)\<lparr>row_status := Some ''complete'', updated_at := Some 11\<rparr>]"
    unfolding sel .
  from th2 r2 ns
  have "map report_fields [(hd stray_project)\<lparr>row_status := Some ''complete'', updated_at := Some 11\<rparr>] =
      map report_fields stray_project"
    by blast
  then have r3: "map report_fields
        [(hd stray_project)\<lparr>row_status := Some ''complete'', updated_at := Some 11\<rparr>] =
      [(Some ''reports'', Some ''p1/report.docx'', None, None, None, Some ''timeout'')]"
    unfolding f0 .
  from th3 stray_update om have "map row_status stray_project = map row_status one_project"
    by blast
  then have r4: "map row_status stray_project = [Some ''working'']"
    unfolding s0 .
  from ins nr r1 stray_project_reachable c r2 ns r3 stray_update om r4 show ?thesis
    by (intro conjI)
qed

section \<open>Properties of the orchestrator\<close>

lemma inv_init: "orch_inv orch_init"
  by (simp add: orch_inv_def orch_init_def)

lemma inv_create: "orch_inv s \<Longrightarrow> orch_inv (create_project pid i s)"
  unfolding orch_inv_def create_project_def
  by (cases "o_projects s pid") auto

lemma inv_edit: "orch_inv s \<Longrightarrow> orch_inv (edit_intake pid i s)"
  unfolding orch_inv_def edit_intake_def
  by (cases "o_projects s pid") auto

lemma inv_regenerate: "orch_inv s \<Longrightarrow> orch_inv (snd (regenerate pid s))"
proof -
  assume inv: "orch_inv s"
  show ?thesis
  proof (cases "o_projects s pid")
    case None
    with inv show ?thesis by (simp add: regenerate_def)
  next
    case (Some p)
    show ?thesis
    proof (cases "o_token p")
      case (Some a)
      with \<open>o_projects s pid = Some p\<close> inv show ?thesis by (simp add: regenerate_def)
    next
      case None
      have nojob: "pid \<notin> fst ` set (o_running s)"
      proof
        assume "pid \<in> fst ` set (o_running s)"
        then obtain b where "(pid, b) \<in> set (o_running s)" by auto
        with inv have "\<exists>q. o_projects s pid = Some q \<and> o_token q = Some b"
          by (simp add: orch_inv_def)
        with \<open>o_projects s pid = Some p\<close> None show False by simp
      qed
      show ?thesis
      proof (cases "missing_fields (o_intake p) = []")
        case True
        with \<open>o_projects s pid = Some p\<close> None inv nojob show ?thesis
          unfolding orch_inv_def regenerate_def Let_def by auto
      next
        case False
        with \<open>o_projects s pid = Some p\<close> None inv nojob show ?thesis
          unfolding orch_inv_def regenerate_def Let_def by auto
      qed
    qed
  qed
qed

lemma apply_outcome_token [simp]: "o_token (apply_outcome out p) = None"
  by (cases out) simp_all

lemma finish_state:
  assumes "(pid, a) \<in> set (o_running s)" "o_projects s pid = Some p" "o_token p = Some a"
  shows "finish_generation pid a out s =
             s\<lparr>o_running := filter (\<lambda>j. j \<noteq> (pid, a)) (o_running s),
               o_projects := (o_projects s)(pid \<mapsto> apply_outcome out p)\<rparr>"
  using assms by (simp add: finish_generation_def Let_def)

lemma inv_finish: "orch_inv s \<Longrightarrow> orch_inv (finish_generation pid a out s)"
proof -
  assume inv: "orch_inv s"
  show ?thesis
  proof (cases "(pid, a) \<in> set (o_running s)")
    case False
    with inv show ?thesis by (simp add: finish_generation_def)
  next
    case True
    from inv have d: "distinct (map fst (o_running s))"
      and iff: "\<And>q b. (q, b) \<in> set (o_running s) \<longleftrightarrow>
                  (\<exists>p. o_projects s q = Some p \<and> o_token p = Some b)"
      by (simp_all add: orch_inv_def)
    from True iff obtain p where p: "o_projects s pid = Some p" "o_token p = Some a" by blast
    define p' where "p' = apply_outcome out p"
    have tok: "o_token p' = None" by (simp add: p'_def)
    have st: "finish_generation pid a out s =
             s\<lparr>o_running := filter (\<lambda>j. j \<noteq> (pid, a)) (o_running s),
               o_projects := (o_projects s)(pid \<mapsto> p')\<rparr>"
      unfolding p'_def by (rule finish_state [OF True p])
    have only: "\<And>b. (pid, b) \<in> set (o_running s) \<Longrightarrow> b = a"
      using d True by (blast dest: eq_key_imp_eq_value)
    have d': "distinct (map fst (filter (\<lambda>j. j \<noteq> (pid, a)) (o_running s)))"
      using d by (rule distinct_map_filter)
    have iff': "(q, b) \<in> set (filter (\<lambda>j. j \<noteq> (pid, a)) (o_running s)) \<longleftrightarrow>
                  (\<exists>r. ((o_projects s)(pid \<mapsto> p')) q = Some r \<and> o_token r = Some b)" for q b
    proof (cases "q = pid")
      case True
      have "(pid, b) \<notin> set (filter (\<lambda>j. j \<noteq> (pid, a)) (o_running s))"
        using only [of b] by auto
      with True tok show ?thesis by simp
    next
      case False
      then show ?thesis using iff [of q b] by simp
    qed
    show ?thesis unfolding st orch_inv_def using d' iff' by simp
  qed
qed

lemma inv_step: "orch_inv s \<Longrightarrow> orch_inv (orch_step e s)"
  by (cases e) (simp_all add: inv_create inv_edit inv_regenerate inv_finish)

lemma reachable_inv: "orch_reachable s \<Longrightarrow> orch_inv s"
  by (induction rule: orch_reachable.induct) (simp_all add: inv_init inv_step)

lemma filter_key_le_one:
  "distinct (map fst xs) \<Longrightarrow> length (filter (\<lambda>j. fst j = k) xs) \<le> Suc 0"
proof (induction xs)
  case Nil
  show ?case by simp
next
  case (Cons x xs)
  show ?case
  proof (cases "fst x = k")
    case True
    with Cons.prems have "k \<notin> fst ` set xs" by simp
    then have "\<forall>j\<in>set xs. fst j \<noteq> k" by blast
    then have "filter (\<lambda>j. fst j = k) xs = []" by (simp add: filter_empty_conv)
    with True show ?thesis by simp
  next
    case False
    with Cons show ?thesis by simp
  qed
qed

lemma filter_key_single:
  "distinct (map fst xs) \<Longrightarrow> (k, v) \<in> set xs \<Longrightarrow> filter (\<lambda>j. fst j = k) xs = [(k, v)]"
proof (induction xs)
  case Nil
  then show ?case by simp
next
  case (Cons x xs)
  show ?case
  proof (cases "x = (k, v)")
    case True
    with Cons.prems have "k \<notin> fst ` set xs" by simp
    then have "\<forall>j\<in>set xs. fst j \<noteq> k" by blast
    then have "filter (\<lambda>j. fst j = k) xs = []" by (simp add: filter_empty_conv)
    with True show ?thesis by simp
  next
    case False
    with Cons.prems have mem: "(k, v) \<in> set xs" by simp
    then have "k \<in> fst ` set xs" by force
    moreover from Cons.prems have "fst x \<notin> fst ` set xs" by simp
    ultimately have "fst x \<noteq> k" by blast
    with Cons mem show ?thesis by simp
  qed
qed

lemma missing_fields_full [simp]: "missing_fields intake_full = []"
  by (simp add: missing_fields_def eval_intake intake_full_def)

lemmas eval_orch =
  orch_init_def create_project_def edit_intake_def regenerate_def finish_generation_def Let_def

text \<open>
  C6. In the orchestrator of the specification, in every reachable state, a project has at
  most one generation running. A regenerate request that starts a generation is followed,
  while that generation is still running, by a second request that changes nothing and
  returns the running attempt (a no-op, not an error): the two requests together start one
  execution. A request that finds a generation running is such a no-op itself. A request
  for a project with a complete intake and no generation running does start one.
\<close>

theorem regenerate_twice_one_execution:
  assumes "orch_reachable s"
  shows
    "length (running_for pid s) \<le> 1 \<and>
     (fst (regenerate pid s) = Started a \<longrightarrow>
        regenerate pid (snd (regenerate pid s)) = (AlreadyRunning a, snd (regenerate pid s)) \<and>
        o_started (snd (regenerate pid (snd (regenerate pid s)))) = o_started s @ [(pid, a)] \<and>
        running_for pid (snd (regenerate pid (snd (regenerate pid s)))) = [(pid, a)]) \<and>
     (fst (regenerate pid s) = AlreadyRunning a \<longrightarrow>
        regenerate pid s = (AlreadyRunning a, s) \<and> running_for pid s = [(pid, a)]) \<and>
     (o_projects s pid = Some p \<and> o_token p = None \<and> missing_fields (o_intake p) = [] \<longrightarrow>
        fst (regenerate pid s) = Started (Suc (o_attempts p)))"
proof (intro conjI impI)
  from assms have inv: "orch_inv s" by (rule reachable_inv)
  then have d: "distinct (map fst (o_running s))"
    and iff: "\<And>q b. (q, b) \<in> set (o_running s) \<longleftrightarrow>
                (\<exists>p. o_projects s q = Some p \<and> o_token p = Some b)"
    by (simp_all add: orch_inv_def)
  show "length (running_for pid s) \<le> 1"
    using filter_key_le_one [OF d, of pid] by (simp add: running_for_def)
  {
    assume st: "fst (regenerate pid s) = Started a"
    then obtain q where q: "o_projects s pid = Some q" "o_token q = None"
      "missing_fields (o_intake q) = []" "a = Suc (o_attempts q)"
      by (auto simp: regenerate_def Let_def split: option.splits if_splits)
    let ?s1 = "snd (regenerate pid s)"
    have s1: "?s1 = s\<lparr>o_projects := (o_projects s)(pid \<mapsto>
                         q\<lparr>o_status := Working, o_token := Some a, o_attempts := a\<rparr>),
                       o_running := o_running s @ [(pid, a)],
                       o_started := o_started s @ [(pid, a)]\<rparr>"
      using q by (simp add: regenerate_def Let_def)
    have second: "regenerate pid ?s1 = (AlreadyRunning a, ?s1)"
      unfolding s1 by (simp add: regenerate_def)
    have none: "filter (\<lambda>j. fst j = pid) (o_running s) = []"
    proof -
      have "\<forall>j\<in>set (o_running s). fst j \<noteq> pid"
      proof
        fix j assume j: "j \<in> set (o_running s)"
        show "fst j \<noteq> pid"
        proof
          assume "fst j = pid"
          with j have "(pid, snd j) \<in> set (o_running s)" by (metis prod.collapse)
          with iff q show False by auto
        qed
      qed
      then show ?thesis by (simp add: filter_empty_conv)
    qed
    show "regenerate pid ?s1 = (AlreadyRunning a, ?s1)" by (rule second)
    show "o_started (snd (regenerate pid ?s1)) = o_started s @ [(pid, a)]"
      unfolding second by (simp add: s1)
    show "running_for pid (snd (regenerate pid ?s1)) = [(pid, a)]"
      unfolding second using none by (simp add: s1 running_for_def)
  }
  {
    assume ar: "fst (regenerate pid s) = AlreadyRunning a"
    then obtain q where q: "o_projects s pid = Some q" "o_token q = Some a"
      by (auto simp: regenerate_def Let_def split: option.splits if_splits)
    then show "regenerate pid s = (AlreadyRunning a, s)" by (simp add: regenerate_def)
    from q iff have "(pid, a) \<in> set (o_running s)" by blast
    then show "running_for pid s = [(pid, a)]"
      using filter_key_single [OF d] by (simp add: running_for_def)
  }
  {
    assume "o_projects s pid = Some p \<and> o_token p = None \<and> missing_fields (o_intake p) = []"
    then show "fst (regenerate pid s) = Started (Suc (o_attempts p))"
      by (simp add: regenerate_def Let_def)
  }
qed

theorem regenerate_twice_one_execution_witness:
  "orch_reachable state_ready \<and>
   fst (regenerate ''p1'' state_ready) = Started 1 \<and>
   regenerate ''p1'' (snd (regenerate ''p1'' state_ready)) =
     (AlreadyRunning 1, snd (regenerate ''p1'' state_ready)) \<and>
   o_started (snd (regenerate ''p1'' (snd (regenerate ''p1'' state_ready)))) = [(''p1'', 1)] \<and>
   running_for ''p1'' (snd (regenerate ''p1'' (snd (regenerate ''p1'' state_ready)))) = [(''p1'', 1)]"
proof -
  have reach: "orch_reachable state_ready"
    unfolding state_ready_def by (intro orch_reachable.intros)
  have st: "fst (regenerate ''p1'' state_ready) = Started 1"
    by (simp add: state_ready_def eval_orch)
  have s0: "o_started state_ready = []"
    by (simp add: state_ready_def eval_orch)
  from regenerate_twice_one_execution [OF reach, of "''p1''" 1] st
  have a: "regenerate ''p1'' (snd (regenerate ''p1'' state_ready)) =
          (AlreadyRunning 1, snd (regenerate ''p1'' state_ready))"
    and b: "o_started (snd (regenerate ''p1'' (snd (regenerate ''p1'' state_ready)))) =
          o_started state_ready @ [(''p1'', 1)]"
    and c: "running_for ''p1'' (snd (regenerate ''p1'' (snd (regenerate ''p1'' state_ready)))) =
          [(''p1'', 1)]"
    by blast+
  from b have b': "o_started (snd (regenerate ''p1'' (snd (regenerate ''p1'' state_ready)))) =
          [(''p1'', 1)]"
    unfolding s0 by simp
  from reach st a b' c show ?thesis by blast
qed

end
